theory Spec2Isabelle
  imports Complex_Main
begin

section \<open>Ingestion front-end: the validator (api/validators.py)\<close>

text \<open>
  Instants are points on the time line in seconds since the epoch; Python's
  \<^verbatim>\<open>datetime\<close> values and the floats returned by \<^verbatim>\<open>.timestamp()\<close> and
  \<^verbatim>\<open>.total_seconds()\<close> are idealised as reals. Temperatures (Python floats) are
  reals as well; the integer vitals are unbounded Python ints.
\<close>

type_synonym instant = real

record VitalsReading =
  patient_id :: string
  timestamp :: instant
  hr :: int
  bp_sys :: int
  bp_dia :: int
  spo2 :: int
  rr :: int
  temp :: real

text \<open>
  \<^verbatim>\<open>timestamp_not_future\<close>: \<open>current\<close> is the clock read by the validator
  (\<^verbatim>\<open>datetime.utcnow()\<close> for a naive value, \<^verbatim>\<open>datetime.now(v.tzinfo)\<close> otherwise).
\<close>

definition timestamp_not_future :: "instant \<Rightarrow> instant \<Rightarrow> string + instant" where
  "timestamp_not_future current v =
     (if v > current then
        (if v - current > 300
         then Inl ''Timestamp cannot be significantly in the future''
         else Inr v)
      else Inr v)"

text \<open>\<^verbatim>\<open>sys_greater_than_dia\<close> returns its argument unchanged.\<close>

definition sys_greater_than_dia :: "int \<Rightarrow> int" where
  "sys_greater_than_dia v = v"

text \<open>
  The declared constraints of one integer field: \<^verbatim>\<open>Field(..., ge=lo, le=hi)\<close>.
  A violated field contributes its name to the validation failure.
\<close>

definition check_int :: "string \<Rightarrow> int \<Rightarrow> int \<Rightarrow> int \<Rightarrow> string list" where
  "check_int name lo hi v = (if lo \<le> v \<and> v \<le> hi then [] else [name])"

definition check_float :: "string \<Rightarrow> real \<Rightarrow> real \<Rightarrow> real \<Rightarrow> string list" where
  "check_float name lo hi v = (if lo \<le> v \<and> v \<le> hi then [] else [name])"

definition check_str :: "string \<Rightarrow> nat \<Rightarrow> nat \<Rightarrow> string \<Rightarrow> string list" where
  "check_str name lo hi v = (if lo \<le> length v \<and> length v \<le> hi then [] else [name])"

definition check_timestamp :: "instant \<Rightarrow> instant \<Rightarrow> string list" where
  "check_timestamp current v =
     (case timestamp_not_future current v of Inl _ \<Rightarrow> [''timestamp''] | Inr _ \<Rightarrow> [])"

text \<open>The fields are validated in declaration order and all failures are collected.\<close>

definition field_errors :: "instant \<Rightarrow> VitalsReading \<Rightarrow> string list" where
  "field_errors current c =
     check_str ''patient_id'' 1 50 (patient_id c) @
     check_timestamp current (timestamp c) @
     check_int ''hr'' 30 250 (hr c) @
     check_int ''bp_sys'' 50 250 (sys_greater_than_dia (bp_sys c)) @
     check_int ''bp_dia'' 30 150 (bp_dia c) @
     check_int ''spo2'' 50 100 (spo2 c) @
     check_int ''rr'' 4 60 (rr c) @
     check_float ''temp'' 30 45 (temp c)"

text \<open>
  Constructing a \<^verbatim>\<open>VitalsReading\<close> from a candidate: \<open>Inl\<close> is the
  \<^verbatim>\<open>ValidationError\<close> with the names of the offending fields (HTTP 422 at the
  endpoint), \<open>Inr\<close> the validated reading.
\<close>

definition validate :: "instant \<Rightarrow> VitalsReading \<Rightarrow> string list + VitalsReading" where
  "validate current c =
     (let es = field_errors current c in if es = [] then Inr c else Inl es)"

definition in_ranges :: "instant \<Rightarrow> VitalsReading \<Rightarrow> bool" where
  "in_ranges current c =
     (1 \<le> length (patient_id c) \<and> length (patient_id c) \<le> 50 \<and>
      30 \<le> hr c \<and> hr c \<le> 250 \<and>
      50 \<le> bp_sys c \<and> bp_sys c \<le> 250 \<and>
      30 \<le> bp_dia c \<and> bp_dia c \<le> 150 \<and>
      50 \<le> spo2 c \<and> spo2 c \<le> 100 \<and>
      4 \<le> rr c \<and> rr c \<le> 60 \<and>
      30 \<le> temp c \<and> temp c \<le> 45 \<and>
      timestamp c - current \<le> 300)"

definition sample_reading :: VitalsReading where
  "sample_reading =
     \<lparr>patient_id = ''pt-1'', timestamp = 1000, hr = 72, bp_sys = 120, bp_dia = 80,
      spo2 = 98, rr = 16, temp = 368 / 10\<rparr>"

section \<open>Ingestion front-end: cache, store and stream (api/main.py)\<close>

text \<open>
  The Redis cache: a key holds an integer value (Redis stores it as a decimal string) and
  an optional expiry instant. A key whose expiry has passed is absent.
\<close>

record cache_entry =
  cval :: int
  expires_at :: "instant option"

type_synonym cache = "string \<rightharpoonup> cache_entry"

definition redis_get :: "instant \<Rightarrow> cache \<Rightarrow> string \<Rightarrow> cache_entry option" where
  "redis_get now c k =
     (case c k of
        None \<Rightarrow> None
      | Some e \<Rightarrow>
          (case expires_at e of
             None \<Rightarrow> Some e
           | Some t \<Rightarrow> if now < t then Some e else None))"

definition redis_exists :: "instant \<Rightarrow> cache \<Rightarrow> string \<Rightarrow> bool" where
  "redis_exists now c k = (redis_get now c k \<noteq> None)"

text \<open>\<^verbatim>\<open>INCR\<close>: one atomic step; a missing key counts from 0, the expiry is kept.\<close>

definition redis_incr :: "instant \<Rightarrow> cache \<Rightarrow> string \<Rightarrow> int \<times> cache" where
  "redis_incr now c k =
     (case redis_get now c k of
        None \<Rightarrow> (1, c(k \<mapsto> \<lparr>cval = 1, expires_at = None\<rparr>))
      | Some e \<Rightarrow> (cval e + 1, c(k \<mapsto> e\<lparr>cval := cval e + 1\<rparr>)))"

definition redis_expire :: "instant \<Rightarrow> cache \<Rightarrow> string \<Rightarrow> real \<Rightarrow> cache" where
  "redis_expire now c k secs =
     (case redis_get now c k of
        None \<Rightarrow> c
      | Some e \<Rightarrow> c(k \<mapsto> e\<lparr>expires_at := Some (now + secs)\<rparr>))"

definition redis_setex :: "instant \<Rightarrow> cache \<Rightarrow> string \<Rightarrow> real \<Rightarrow> int \<Rightarrow> cache" where
  "redis_setex now c k secs v = c(k \<mapsto> \<lparr>cval = v, expires_at = Some (now + secs)\<rparr>)"

text \<open>JSON values of response bodies and stream payloads.\<close>

datatype jval = JStr string | JInt int | JReal real

type_synonym payload = "(string \<times> jval) list"

record response =
  status_code :: nat
  body :: payload

definition HTTPException :: "nat \<Rightarrow> string \<Rightarrow> response" where
  "HTTPException code detail = \<lparr>status_code = code, body = [(''detail'', JStr detail)]\<rparr>"

definition rate_key :: "string \<Rightarrow> string" where
  "rate_key patient = ''rate_limit:'' @ patient"

text \<open>
  \<^verbatim>\<open>check_rate_limit\<close>: \<open>None\<close> when the request is admitted, \<open>Some\<close> the raised
  \<^verbatim>\<open>HTTPException\<close> otherwise; the cache is returned updated in both cases.
\<close>

definition check_rate_limit :: "instant \<Rightarrow> string \<Rightarrow> cache \<Rightarrow> response option \<times> cache" where
  "check_rate_limit now pid c =
     (let key = rate_key pid;
          (current, c1) = redis_incr now c key;
          c2 = (if current = 1 then redis_expire now c1 key 10 else c1)
      in if current > 20
         then (Some (HTTPException 429 ''Rate limit exceeded for this patient ID''), c2)
         else (None, c2))"

text \<open>Successive ingest attempts of one patient, at the given instants.\<close>

fun rate_attempts :: "instant list \<Rightarrow> string \<Rightarrow> cache \<Rightarrow> response option list" where
  "rate_attempts [] pid c = []"
| "rate_attempts (t # ts) pid c =
     (case check_rate_limit t pid c of (r, c') \<Rightarrow> r # rate_attempts ts pid c')"


text \<open>
  Successive ingest attempts of any patients, each with its instant and patient id, all
  against the one cache.
\<close>

fun mixed_attempts :: "(instant \<times> string) list \<Rightarrow> cache \<Rightarrow> response option list" where
  "mixed_attempts [] c = []"
| "mixed_attempts ((t, pid) # rs) c =
     (case check_rate_limit t pid c of (r, c') \<Rightarrow> r # mixed_attempts rs c')"

definition rate_limited :: response where
  "rate_limited = HTTPException 429 ''Rate limit exceeded for this patient ID''"

text \<open>The live value and expiry of a patient's rate counter (0 when the key is absent).\<close>

definition rate_count :: "instant \<Rightarrow> cache \<Rightarrow> string \<Rightarrow> int" where
  "rate_count now c pid =
     (case redis_get now c (rate_key pid) of None \<Rightarrow> 0 | Some e \<Rightarrow> cval e)"

definition rate_expiry :: "instant \<Rightarrow> cache \<Rightarrow> string \<Rightarrow> instant option" where
  "rate_expiry now c pid =
     (case redis_get now c (rate_key pid) of None \<Rightarrow> None | Some e \<Rightarrow> expires_at e)"

section \<open>Ingestion front-end: the ingest endpoint (api/main.py)\<close>

text \<open>
  Library functions the endpoint calls but does not define: the SHA-256 hex digest of
  \<^verbatim>\<open>hashlib\<close> and \<^verbatim>\<open>datetime.isoformat\<close>. They are parameters of the model.
\<close>

record pylib =
  sha256_hexdigest :: "string \<Rightarrow> string"
  isoformat :: "instant \<Rightarrow> string"

definition get_idempotency_key :: "pylib \<Rightarrow> VitalsReading \<Rightarrow> string" where
  "get_idempotency_key lib reading =
     sha256_hexdigest lib (patient_id reading @ '':'' @ isoformat lib (timestamp reading))"

definition idem_key :: "pylib \<Rightarrow> VitalsReading \<Rightarrow> string" where
  "idem_key lib reading = ''idem:'' @ get_idempotency_key lib reading"

text \<open>
  The relational store. An event row is the assigned id with the reading's columns.
\<close>

type_synonym event_row = "int \<times> VitalsReading"

record store =
  patients :: "string set"
  vitals_events :: "event_row list"
  next_event_id :: int

datatype db_error = UniqueViolation | OperationalError

definition event_key :: "event_row \<Rightarrow> string \<times> instant" where
  "event_key row = (patient_id (snd row), timestamp (snd row))"

text \<open>
  Modelled from the spec: the table declarations are not part of the source. The schema
  is \<^verbatim>\<open>patients(id pk)\<close> and \<^verbatim>\<open>vitals_events(id serial pk, ...,
  unique(patient_id, timestamp))\<close>, so the second \<^verbatim>\<open>INSERT\<close> raises a unique
  violation when the pair is already stored.

  The two statements of step 3 run in one transaction of the pooled connection: it
  commits when the block is left normally and rolls back when a \<^verbatim>\<open>psycopg.Error\<close>
  leaves it. \<open>up\<close> tells whether the store can be reached.
\<close>

definition persist_reading :: "bool \<Rightarrow> VitalsReading \<Rightarrow> store \<Rightarrow> db_error + int \<times> store" where
  "persist_reading up reading d =
     (if \<not> up then Inl OperationalError
      else if (patient_id reading, timestamp reading) \<in> set (map event_key (vitals_events d))
      then Inl UniqueViolation
      else Inr (next_event_id d,
                d\<lparr>patients := insert (patient_id reading) (patients d),
                  vitals_events := vitals_events d @ [(next_event_id d, reading)],
                  next_event_id := next_event_id d + 1\<rparr>))"

text \<open>
  The stream: entries in append order, each with the position Redis assigned to it
  (modelled as its ordinal number). \<^verbatim>\<open>XADD\<close> fails with a \<^verbatim>\<open>RedisError\<close>
  when the stream service is not reachable.
\<close>

type_synonym stream_log = "(nat \<times> payload) list"

definition xadd :: "bool \<Rightarrow> payload \<Rightarrow> stream_log \<Rightarrow> (nat \<times> stream_log) option" where
  "xadd up p st = (if up then Some (Suc (length st), st @ [(Suc (length st), p)]) else None)"

text \<open>\<^verbatim>\<open>reading.model_dump()\<close> with the ISO timestamp and the event id.\<close>

definition stream_payload :: "pylib \<Rightarrow> VitalsReading \<Rightarrow> int \<Rightarrow> payload" where
  "stream_payload lib reading event_id =
     [(''patient_id'', JStr (patient_id reading)),
      (''timestamp'', JStr (isoformat lib (timestamp reading))),
      (''hr'', JInt (hr reading)),
      (''bp_sys'', JInt (bp_sys reading)),
      (''bp_dia'', JInt (bp_dia reading)),
      (''spo2'', JInt (spo2 reading)),
      (''rr'', JInt (rr reading)),
      (''temp'', JReal (temp reading)),
      (''db_id'', JInt event_id)]"

text \<open>
  The writes of one request to the three storage surfaces, in the order the endpoint
  issues them.
\<close>

datatype effect = DurableCommit int | StreamPublish nat | IdempotencySet string

record api_state =
  cache :: cache
  db :: store
  stream :: stream_log
  effects :: "effect list"

text \<open>Which of the external calls of this request succeed.\<close>

record services =
  db_ok :: bool
  xadd_ok :: bool
  setex_ok :: bool

definition ignored_response :: response where
  "ignored_response =
     \<lparr>status_code = 202,
      body = [(''status'', JStr ''ignored''), (''detail'', JStr ''duplicate_event_cache'')]\<rparr>"

definition queued_response :: "nat \<Rightarrow> int \<Rightarrow> response" where
  "queued_response msg_id event_id =
     \<lparr>status_code = 202,
      body = [(''status'', JStr ''queued''), (''id'', JInt (int msg_id)),
              (''db_id'', JInt event_id)]\<rparr>"

text \<open>
  \<^verbatim>\<open>ingest_vitals\<close>, for a reading that passed validation. The route is declared
  with \<^verbatim>\<open>status_code=202\<close>, which is the status of every normal return; a raised
  \<^verbatim>\<open>HTTPException\<close> carries its own status. The request is served at the instant
  \<open>now\<close>.
\<close>

definition ingest_vitals ::
  "pylib \<Rightarrow> services \<Rightarrow> instant \<Rightarrow> VitalsReading \<Rightarrow> api_state \<Rightarrow> response \<times> api_state" where
  "ingest_vitals lib sv now reading s =
     (case check_rate_limit now (patient_id reading) (cache s) of
        (Some exc, c1) \<Rightarrow> (exc, s\<lparr>cache := c1\<rparr>)
      | (None, c1) \<Rightarrow>
          if redis_exists now c1 (idem_key lib reading)
          then (ignored_response, s\<lparr>cache := c1\<rparr>)
          else
            (case persist_reading (db_ok sv) reading (db s) of
               Inl e \<Rightarrow>
                 (HTTPException 500 ''Database persistence failed'', s\<lparr>cache := c1\<rparr>)
             | Inr (event_id, d) \<Rightarrow>
                 (case xadd (xadd_ok sv) (stream_payload lib reading event_id) (stream s) of
                    None \<Rightarrow>
                      (HTTPException 503 ''Stream service unavailable'',
                       s\<lparr>cache := c1, db := d,
                         effects := effects s @ [DurableCommit event_id]\<rparr>)
                  | Some (msg_id, st) \<Rightarrow>
                      if setex_ok sv
                      then (queued_response msg_id event_id,
                            s\<lparr>cache := redis_setex now c1 (idem_key lib reading) 600 1,
                              db := d, stream := st,
                              effects := effects s @
                                [DurableCommit event_id, StreamPublish msg_id,
                                 IdempotencySet (idem_key lib reading)]\<rparr>)
                      else (HTTPException 503 ''Stream service unavailable'',
                            s\<lparr>cache := c1, db := d, stream := st,
                              effects := effects s @
                                [DurableCommit event_id, StreamPublish msg_id]\<rparr>))))"

text \<open>Sample data: an empty system, all services up, and fixed library functions.\<close>

definition lib0 :: pylib where
  "lib0 = \<lparr>sha256_hexdigest = (\<lambda>s. s), isoformat = (\<lambda>t. ''1970-01-01T00:16:40+00:00'')\<rparr>"

definition all_up :: services where
  "all_up = \<lparr>db_ok = True, xadd_ok = True, setex_ok = True\<rparr>"

definition empty_store :: store where
  "empty_store = \<lparr>patients = {}, vitals_events = [], next_event_id = 1\<rparr>"

definition api0 :: api_state where
  "api0 = \<lparr>cache = Map.empty, db = empty_store, stream = [], effects = []\<rparr>"

text \<open>
  Three reachable states of the sample system: after a first request whose stream
  publish failed, after a first request that was accepted, and the latter with the
  patient's rate counter at its ceiling.
\<close>

definition api_after_stream_failure :: api_state where
  "api_after_stream_failure =
     snd (ingest_vitals lib0 (all_up\<lparr>xadd_ok := False\<rparr>) 1000 sample_reading api0)"

definition api_after_accept :: api_state where
  "api_after_accept = snd (ingest_vitals lib0 all_up 1000 sample_reading api0)"

definition api_rate_exhausted :: api_state where
  "api_rate_exhausted =
     api_after_accept
       \<lparr>cache := (cache api_after_accept)
          (rate_key ''pt-1'' \<mapsto> \<lparr>cval = 20, expires_at = Some 1010\<rparr>)\<rparr>"

section \<open>Worker: sliding windows (worker/windows.py)\<close>

text \<open>
  The \<^verbatim>\<open>reading\<close> dictionary that the worker builds from a stream entry: the parsed
  timestamp and the six vitals.
\<close>

record reading =
  rd_timestamp :: instant
  rd_hr :: int
  rd_bp_sys :: int
  rd_bp_dia :: int
  rd_spo2 :: int
  rd_rr :: int
  rd_temp :: real

text \<open>\<^verbatim>\<open>SlidingWindow\<close>: the deque \<open>events\<close> has its head (left end) first.\<close>

record SlidingWindow =
  size_seconds :: real
  events :: "(instant \<times> reading) list"

definition new_SlidingWindow :: "real \<Rightarrow> SlidingWindow" where
  "new_SlidingWindow secs = \<lparr>size_seconds = secs, events = []\<rparr>"

text \<open>
  The loop of \<^verbatim>\<open>_prune\<close>: pop from the left while the deque is not empty and its head
  is older than the cutoff. It stops at the first head that is not older.
\<close>

fun popleft_while_older :: "real \<Rightarrow> (instant \<times> reading) list \<Rightarrow> (instant \<times> reading) list" where
  "popleft_while_older cutoff [] = []"
| "popleft_while_older cutoff (e # es) =
     (if fst e < cutoff then popleft_while_older cutoff es else e # es)"

definition prune :: "instant \<Rightarrow> SlidingWindow \<Rightarrow> SlidingWindow" where
  "prune current_time w =
     (let cutoff = current_time - size_seconds w
      in w\<lparr>events := popleft_while_older cutoff (events w)\<rparr>)"

definition add_event :: "instant \<Rightarrow> reading \<Rightarrow> SlidingWindow \<Rightarrow> SlidingWindow" where
  "add_event ts data w = prune ts (w\<lparr>events := events w @ [(ts, data)]\<rparr>)"

text \<open>
  Floating-point numbers are reals here (every double is a real number). The routines
  whose results are rounded to a double are the library's and the language's own, and
  are parameters of the model: \<open>np_mean xs\<close> is \<^verbatim>\<open>float(np.mean(xs))\<close>,
  \<open>py_round x\<close> is \<^verbatim>\<open>round(x, 2)\<close>, and \<open>int_sub_float i x\<close> is the Python
  expression \<^verbatim>\<open>i - x\<close> for an integer \<open>i\<close> and a float \<open>x\<close>.
\<close>

record numerics =
  np_mean :: "real list \<Rightarrow> real"
  py_round :: "real \<Rightarrow> real"
  int_sub_float :: "int \<Rightarrow> real \<Rightarrow> real"

record aggregates =
  window_size_s :: real
  count :: nat
  end_time :: instant
  avg_hr :: real
  avg_spo2 :: real
  avg_temp :: real

text \<open>
  \<^verbatim>\<open>get_aggregates\<close>: the three lists \<^verbatim>\<open>hrs\<close>, \<^verbatim>\<open>spo2s\<close> and
  \<^verbatim>\<open>temps\<close> of the window, each averaged and rounded to two decimals.
\<close>

definition get_aggregates :: "numerics \<Rightarrow> SlidingWindow \<Rightarrow> aggregates option" where
  "get_aggregates nm w =
     (if events w = [] then None
      else
        (let hrs = map (\<lambda>e. of_int (rd_hr (snd e))) (events w);
             spo2s = map (\<lambda>e. of_int (rd_spo2 (snd e))) (events w);
             temps = map (\<lambda>e. rd_temp (snd e)) (events w)
         in Some
              \<lparr>window_size_s = size_seconds w,
               count = length (events w),
               end_time = fst (last (events w)),
               avg_hr = py_round nm (np_mean nm hrs),
               avg_spo2 = py_round nm (np_mean nm spo2s),
               avg_temp = py_round nm (np_mean nm temps)\<rparr>))"

text \<open>\<^verbatim>\<open>PatientStateManager\<close>: the three windows of one patient.\<close>

record PatientStateManager =
  psm_patient_id :: string
  w_30s :: SlidingWindow
  w_2m :: SlidingWindow
  w_10m :: SlidingWindow

definition new_PatientStateManager :: "string \<Rightarrow> PatientStateManager" where
  "new_PatientStateManager pid =
     \<lparr>psm_patient_id = pid,
      w_30s = new_SlidingWindow 30,
      w_2m = new_SlidingWindow 120,
      w_10m = new_SlidingWindow 600\<rparr>"

definition add_reading :: "reading \<Rightarrow> PatientStateManager \<Rightarrow> PatientStateManager" where
  "add_reading rd st =
     (let ts = rd_timestamp rd
      in st\<lparr>w_30s := add_event ts rd (w_30s st),
            w_2m := add_event ts rd (w_2m st),
            w_10m := add_event ts rd (w_10m st)\<rparr>)"

definition get_summaries :: "numerics \<Rightarrow> PatientStateManager \<Rightarrow> aggregates option list" where
  "get_summaries nm st =
     [get_aggregates nm (w_30s st), get_aggregates nm (w_2m st), get_aggregates nm (w_10m st)]"

text \<open>The readings of one patient, added in the order given.\<close>

definition add_readings :: "reading list \<Rightarrow> PatientStateManager \<Rightarrow> PatientStateManager" where
  "add_readings rds st = fold add_reading rds st"

definition reading_at :: "instant \<Rightarrow> reading" where
  "reading_at t =
     \<lparr>rd_timestamp = t, rd_hr = 72, rd_bp_sys = 120, rd_bp_dia = 80, rd_spo2 = 98,
      rd_rr = 16, rd_temp = 368 / 10\<rparr>"



section \<open>Worker: processing one stream entry (worker/processor.py)\<close>

text \<open>
  A stream entry as the worker receives it: a dictionary from field names to strings.
  The library functions the worker calls are parameters of the model: the conversions
  of the strings (\<^verbatim>\<open>datetime.fromisoformat\<close>, \<^verbatim>\<open>int\<close>, \<^verbatim>\<open>float\<close>), where
  \<open>None\<close> is the raised \<^verbatim>\<open>ValueError\<close>, and the floating-point routines \<open>num\<close>.
\<close>

type_synonym event_data = "string \<rightharpoonup> string"

record worker_lib =
  fromisoformat :: "string \<Rightarrow> instant option"
  py_int :: "string \<Rightarrow> int option"
  py_float :: "string \<Rightarrow> real option"
  num :: numerics

text \<open>
  The pre-trained scorer, loaded from a file: \<^verbatim>\<open>decision_function\<close> and
  \<^verbatim>\<open>predict\<close> of the first (only) row of the feature matrix.
\<close>

record model =
  decision_function :: "real list \<Rightarrow> real"
  predict :: "real list \<Rightarrow> int"

datatype py_exception =
  KeyError string | ValueError string | StoreUnavailable | AnomalyUniqueViolation

text \<open>\<^verbatim>\<open>int(event_data[k])\<close> and \<^verbatim>\<open>float(event_data[k])\<close>.\<close>

definition get_int :: "worker_lib \<Rightarrow> event_data \<Rightarrow> string \<Rightarrow> py_exception + int" where
  "get_int ps d k =
     (case d k of
        None \<Rightarrow> Inl (KeyError k)
      | Some s \<Rightarrow> (case py_int ps s of None \<Rightarrow> Inl (ValueError k) | Some v \<Rightarrow> Inr v))"

definition get_float :: "worker_lib \<Rightarrow> event_data \<Rightarrow> string \<Rightarrow> py_exception + real" where
  "get_float ps d k =
     (case d k of
        None \<Rightarrow> Inl (KeyError k)
      | Some s \<Rightarrow> (case py_float ps s of None \<Rightarrow> Inl (ValueError k) | Some v \<Rightarrow> Inr v))"

definition and_then :: "'e + 'a \<Rightarrow> ('a \<Rightarrow> 'e + 'b) \<Rightarrow> 'e + 'b" where
  "and_then r f = (case r of Inl e \<Rightarrow> Inl e | Inr v \<Rightarrow> f v)"

text \<open>
  The timestamp: any failure of the lookup or of the parse is swallowed by the bare
  \<^verbatim>\<open>except\<close> and replaced by the wall clock \<^verbatim>\<open>datetime.now()\<close>.
\<close>

definition parse_timestamp :: "worker_lib \<Rightarrow> instant \<Rightarrow> event_data \<Rightarrow> instant" where
  "parse_timestamp ps now d =
     (case d ''timestamp'' of
        None \<Rightarrow> now
      | Some s \<Rightarrow> (case fromisoformat ps s of None \<Rightarrow> now | Some t \<Rightarrow> t))"

text \<open>The \<^verbatim>\<open>reading\<close> dictionary; its values are evaluated in the order written.\<close>

definition build_reading :: "worker_lib \<Rightarrow> instant \<Rightarrow> event_data \<Rightarrow> py_exception + reading" where
  "build_reading ps ts d =
     and_then (get_int ps d ''hr'') (\<lambda>h.
     and_then (get_int ps d ''bp_sys'') (\<lambda>bs.
     and_then (get_int ps d ''bp_dia'') (\<lambda>bd.
     and_then (get_int ps d ''spo2'') (\<lambda>sp.
     and_then (get_int ps d ''rr'') (\<lambda>r.
     and_then (get_float ps d ''temp'') (\<lambda>t.
       Inr \<lparr>rd_timestamp = ts, rd_hr = h, rd_bp_sys = bs, rd_bp_dia = bd, rd_spo2 = sp,
            rd_rr = r, rd_temp = t\<rparr>))))))"

definition feature_vector :: "reading \<Rightarrow> real list" where
  "feature_vector rd =
     [of_int (rd_hr rd), of_int (rd_bp_sys rd), of_int (rd_bp_dia rd), of_int (rd_spo2 rd),
      of_int (rd_rr rd), rd_temp rd]"

text \<open>
  The float literal \<^verbatim>\<open>0.2\<close> denotes the double nearest to one fifth, which is
  \<open>3602879701896397 / 2\<^sup>5\<^sup>4\<close>.
\<close>

definition literal_0_2 :: real where
  "literal_0_2 = 3602879701896397 / 18014398509481984"

text \<open>
  The anomaly type, from the current reading, the aggregates of the 10-minute window and
  the inverted score (the block under \<^verbatim>\<open>if is_anomaly\<close>). The initial value
  \<^verbatim>\<open>"unknown"\<close> is overwritten on every path. The readings \<^verbatim>\<open>hr\<close> and
  \<^verbatim>\<open>spo2\<close> are integers and the averages floats; \<^verbatim>\<open>abs\<close> and the comparisons
  are exact.
\<close>

definition anomaly_type :: "numerics \<Rightarrow> reading \<Rightarrow> aggregates option \<Rightarrow> real \<Rightarrow> string" where
  "anomaly_type nm rd w anomaly_score =
     (case w of
        None \<Rightarrow> ''spike''
      | Some a \<Rightarrow>
          if count a > 5 then
            (if \<bar>int_sub_float nm (rd_hr rd) (avg_hr a)\<bar> > 20 then ''spike''
             else if \<bar>int_sub_float nm (rd_spo2 rd) (avg_spo2 a)\<bar> > 5 then ''drop''
             else if anomaly_score > literal_0_2 then ''multi-signal''
             else ''drift'')
          else ''spike'')"

text \<open>A row of the \<^verbatim>\<open>anomalies\<close> table; \<open>a_details\<close> is the serialized reading.\<close>

record anomaly_row =
  a_patient_id :: string
  a_anomaly_type :: string
  a_score :: real
  a_timestamp :: instant
  a_details :: reading

definition anomaly_key :: "anomaly_row \<Rightarrow> string \<times> instant \<times> string" where
  "anomaly_key row = (a_patient_id row, a_timestamp row, a_anomaly_type row)"

text \<open>
  The \<^verbatim>\<open>INSERT INTO anomalies\<close> has no conflict clause. The table declaration is
  not part of the source, so whether the table carries a unique index on
  \<open>(patient_id, timestamp, anomaly_type)\<close> is the parameter \<open>uq\<close>: with the index a
  second row of the same key is refused with a unique violation, without it the row is
  appended.
\<close>

definition insert_anomaly :: "bool \<Rightarrow> anomaly_row \<Rightarrow> anomaly_row list \<Rightarrow> anomaly_row list option" where
  "insert_anomaly uq row rows =
     (if uq \<and> anomaly_key row \<in> set (map anomaly_key rows) then None
      else Some (rows @ [row]))"

text \<open>
  The worker's state: the in-memory map \<^verbatim>\<open>patient_states\<close> and the
  \<^verbatim>\<open>anomalies\<close> table of the relational store.
\<close>

record worker_state =
  patient_states :: "string \<rightharpoonup> PatientStateManager"
  anomalies :: "anomaly_row list"

text \<open>
  What the surroundings give to one call: the wall clock, whether the store can be
  reached, and the schema parameter above.
\<close>

record worker_env =
  wall_clock :: instant
  store_up :: bool
  anomalies_unique :: bool

definition state_of :: "worker_state \<Rightarrow> string \<Rightarrow> PatientStateManager" where
  "state_of st pid =
     (case patient_states st pid of None \<Rightarrow> new_PatientStateManager pid | Some s \<Rightarrow> s)"

text \<open>
  \<^verbatim>\<open>process_event\<close>. The result is the exception that left the function, if any,
  and the state with every mutation made before it. The two \<^verbatim>\<open>print\<close> statements
  for threshold crossings and detected anomalies write to standard output only and are
  not part of the state.
\<close>

definition process_event ::
  "worker_lib \<Rightarrow> model \<Rightarrow> worker_env \<Rightarrow> event_data \<Rightarrow> worker_state \<Rightarrow>
   py_exception option \<times> worker_state" where
  "process_event ps m env d st =
     (case d ''patient_id'' of
        None \<Rightarrow> (Some (KeyError ''patient_id''), st)
      | Some pid \<Rightarrow>
          (let ts = parse_timestamp ps (wall_clock env) d;
               state = state_of st pid;
               st1 = st\<lparr>patient_states := (patient_states st)(pid \<mapsto> state)\<rparr>
           in case build_reading ps ts d of
                Inl e \<Rightarrow> (Some e, st1)
              | Inr rd \<Rightarrow>
                  (let state' = add_reading rd state;
                       st2 = st\<lparr>patient_states := (patient_states st)(pid \<mapsto> state')\<rparr>;
                       vector = feature_vector rd;
                       score_raw = decision_function m vector;
                       is_anomaly = (predict m vector = - 1);
                       anomaly_score = - score_raw
                   in if \<not> store_up env then (Some StoreUnavailable, st2)
                      else if is_anomaly then
                        (let a_type = anomaly_type (num ps) rd
                                        (get_aggregates (num ps) (w_10m state'))
                                        anomaly_score;
                             row = \<lparr>a_patient_id = pid, a_anomaly_type = a_type,
                                    a_score = anomaly_score, a_timestamp = ts,
                                    a_details = rd\<rparr>
                         in case insert_anomaly (anomalies_unique env) row (anomalies st2) of
                              None \<Rightarrow> (Some AnomalyUniqueViolation, st2)
                            | Some rows \<Rightarrow> (None, st2\<lparr>anomalies := rows\<rparr>))
                      else (None, st2))))"

text \<open>The row that \<^verbatim>\<open>process_event\<close> inserts for a flagged reading.\<close>

definition anomaly_row_of ::
  "worker_lib \<Rightarrow> model \<Rightarrow> string \<Rightarrow> reading \<Rightarrow> PatientStateManager \<Rightarrow> anomaly_row" where
  "anomaly_row_of ps m pid rd state' =
     \<lparr>a_patient_id = pid,
      a_anomaly_type = anomaly_type (num ps) rd (get_aggregates (num ps) (w_10m state'))
                         (- decision_function m (feature_vector rd)),
      a_score = - decision_function m (feature_vector rd),
      a_timestamp = rd_timestamp rd,
      a_details = rd\<rparr>"

section \<open>Worker: the consumer loop (worker/processor.py)\<close>

text \<open>
  The stream with its consumer group, as Redis keeps them: the entries in append order
  with their positions, the position of the last entry delivered to the group, and the
  pending list of entries delivered to a consumer and not acknowledged yet.
\<close>

record stream_group =
  entries :: "(nat \<times> event_data) list"
  group_exists :: bool
  last_delivered :: nat
  pending :: "(nat \<times> string) list"

text \<open>An entry published by the ingestion side.\<close>

definition publish :: "event_data \<Rightarrow> stream_group \<Rightarrow> stream_group" where
  "publish d g = g\<lparr>entries := entries g @ [(Suc (length (entries g)), d)]\<rparr>"

definition publish_all :: "event_data list \<Rightarrow> stream_group \<Rightarrow> stream_group" where
  "publish_all ds g = fold publish ds g"

text \<open>
  \<^verbatim>\<open>XGROUP CREATE ... id="0"\<close>: the first component tells whether Redis answered
  \<^verbatim>\<open>BUSYGROUP\<close>, which the worker ignores.
\<close>

definition xgroup_create :: "stream_group \<Rightarrow> bool \<times> stream_group" where
  "xgroup_create g =
     (if group_exists g then (True, g)
      else (False, g\<lparr>group_exists := True, last_delivered := 0, pending := []\<rparr>))"

text \<open>
  \<^verbatim>\<open>XREADGROUP\<close> with the id \<^verbatim>\<open>">"\<close>: at most \<open>cnt\<close> entries never delivered
  to the group; they become pending for the consumer.
\<close>

definition xreadgroup :: "string \<Rightarrow> nat \<Rightarrow> stream_group \<Rightarrow> (nat \<times> event_data) list \<times> stream_group" where
  "xreadgroup consumer cnt g =
     (let msgs = take cnt (filter (\<lambda>e. last_delivered g < fst e) (entries g))
      in (msgs,
          g\<lparr>last_delivered := (if msgs = [] then last_delivered g else fst (last msgs)),
            pending := pending g @ map (\<lambda>e. (fst e, consumer)) msgs\<rparr>))"

definition xack :: "nat \<Rightarrow> stream_group \<Rightarrow> stream_group" where
  "xack msg_id g = g\<lparr>pending := filter (\<lambda>p. fst p \<noteq> msg_id) (pending g)\<rparr>"

record worker_sys =
  mem :: worker_state
  grp :: stream_group

text \<open>
  The \<^verbatim>\<open>for\<close> loop over one batch: process, then acknowledge. An exception leaves
  the loop (it is caught at the boundary of the \<^verbatim>\<open>while\<close> loop), so the entry that
  raised and the rest of the batch stay unacknowledged. \<open>envs\<close> gives the surroundings
  of the call for each stream position.
\<close>

fun handle_messages ::
  "worker_lib \<Rightarrow> model \<Rightarrow> (nat \<Rightarrow> worker_env) \<Rightarrow> (nat \<times> event_data) list \<Rightarrow> worker_sys \<Rightarrow> worker_sys" where
  "handle_messages ps m envs [] s = s"
| "handle_messages ps m envs ((msg_id, d) # rest) s =
     (case process_event ps m (envs msg_id) d (mem s) of
        (Some e, st) \<Rightarrow> s\<lparr>mem := st\<rparr>
      | (None, st) \<Rightarrow>
          handle_messages ps m envs rest (s\<lparr>mem := st, grp := xack msg_id (grp s)\<rparr>))"

text \<open>
  One pass of the \<^verbatim>\<open>while True\<close> loop. \<open>readable\<close> tells whether
  \<^verbatim>\<open>xreadgroup\<close> succeeds; when it raises, the pass does nothing more.
\<close>

definition loop_pass ::
  "worker_lib \<Rightarrow> model \<Rightarrow> (nat \<Rightarrow> worker_env) \<Rightarrow> string \<Rightarrow> bool \<Rightarrow> worker_sys \<Rightarrow> worker_sys" where
  "loop_pass ps m envs consumer readable s =
     (if \<not> readable then s
      else (case xreadgroup consumer 10 (grp s) of
              (msgs, g) \<Rightarrow> handle_messages ps m envs msgs (s\<lparr>grp := g\<rparr>)))"

text \<open>
  The loop never ends; \<open>worker_loop\<close> gives the state after the passes of a schedule,
  each pass with the entries published since the previous one and the outcome of its
  read.
\<close>

fun worker_loop ::
  "worker_lib \<Rightarrow> model \<Rightarrow> (nat \<Rightarrow> worker_env) \<Rightarrow> string \<Rightarrow> (event_data list \<times> bool) list \<Rightarrow>
   worker_sys \<Rightarrow> worker_sys" where
  "worker_loop ps m envs consumer [] s = s"
| "worker_loop ps m envs consumer ((arrived, readable) # sched) s =
     worker_loop ps m envs consumer sched
       (loop_pass ps m envs consumer readable (s\<lparr>grp := publish_all arrived (grp s)\<rparr>))"

text \<open>
  \<^verbatim>\<open>main\<close>: a worker process starts with an empty \<^verbatim>\<open>patient_states\<close>; without
  a model it returns at once; otherwise it creates the group and enters the loop.
  \<open>rows\<close> is the anomalies table and \<open>g\<close> the stream found at startup.
\<close>

definition main ::
  "worker_lib \<Rightarrow> model option \<Rightarrow> (nat \<Rightarrow> worker_env) \<Rightarrow> string \<Rightarrow> (event_data list \<times> bool) list \<Rightarrow>
   anomaly_row list \<Rightarrow> stream_group \<Rightarrow> worker_sys" where
  "main ps mo envs consumer sched rows g =
     (case mo of
        None \<Rightarrow> \<lparr>mem = \<lparr>patient_states = Map.empty, anomalies = rows\<rparr>, grp = g\<rparr>
      | Some m \<Rightarrow>
          worker_loop ps m envs consumer sched
            \<lparr>mem = \<lparr>patient_states = Map.empty, anomalies = rows\<rparr>,
             grp = snd (xgroup_create g)\<rparr>)"

text \<open>Sample data for the worker.\<close>

text \<open>
  Sample floating-point routines with exact arithmetic. On the heart rates and
  saturations of the sample data below every mean is a binary fraction with at most two
  decimals (such as 96.25 and 98) and every difference is one too, so the floating-point
  routines give these very values there.
\<close>

definition numerics0 :: numerics where
  "numerics0 =
     \<lparr>np_mean = (\<lambda>xs. sum_list xs / real (length xs)),
      py_round = (\<lambda>x. of_int (round (x * 100)) / 100),
      int_sub_float = (\<lambda>i x. of_int i - x)\<rparr>"

definition worker_lib0 :: worker_lib where
  "worker_lib0 =
     \<lparr>fromisoformat = (\<lambda>s. if s = ''1970-01-01T00:16:40+00:00'' then Some 1000 else None),
      py_int = (\<lambda>s. if s = ''180'' then Some 180 else if s = ''120'' then Some 120
                    else if s = ''80'' then Some 80 else if s = ''98'' then Some 98
                    else if s = ''16'' then Some 16 else if s = ''105'' then Some 105
                    else if s = ''95'' then Some 95 else None),
      py_float = (\<lambda>s. if s = ''36.8'' then Some (368 / 10) else None),
      num = numerics0\<rparr>"

text \<open>A scorer that flags a heart rate above 100, with native score \<open>-0.1\<close>.\<close>

definition model0 :: model where
  "model0 =
     \<lparr>decision_function = (\<lambda>v. - 1 / 10),
      predict = (\<lambda>v. if hd v > 100 then - 1 else 1)\<rparr>"

definition entry_with :: "string \<Rightarrow> string \<Rightarrow> event_data" where
  "entry_with ts h =
     [''patient_id'' \<mapsto> ''pt-1'', ''timestamp'' \<mapsto> ts, ''hr'' \<mapsto> h, ''bp_sys'' \<mapsto> ''120'',
      ''bp_dia'' \<mapsto> ''80'', ''spo2'' \<mapsto> ''98'', ''rr'' \<mapsto> ''16'', ''temp'' \<mapsto> ''36.8'',
      ''db_id'' \<mapsto> ''1'']"

definition env_at :: "instant \<Rightarrow> bool \<Rightarrow> worker_env" where
  "env_at t uq = \<lparr>wall_clock = t, store_up = True, anomalies_unique = uq\<rparr>"

definition worker0 :: worker_state where
  "worker0 = \<lparr>patient_states = Map.empty, anomalies = []\<rparr>"

definition iso1000 :: string where
  "iso1000 = ''1970-01-01T00:16:40+00:00''"

definition reading_hr :: "instant \<Rightarrow> int \<Rightarrow> reading" where
  "reading_hr t h = (reading_at t)\<lparr>rd_hr := h\<rparr>"

text \<open>
  The worker after seven readings of heart rate 95, which the sample scorer does not
  flag.
\<close>

definition worker_warm :: worker_state where
  "worker_warm =
     snd (process_event worker_lib0 model0 (env_at 2000 True)
       (entry_with iso1000 ''95'')
       (snd (process_event worker_lib0 model0 (env_at 2000 True)
         (entry_with iso1000 ''95'')
         (snd (process_event worker_lib0 model0 (env_at 2000 True)
           (entry_with iso1000 ''95'')
           (snd (process_event worker_lib0 model0 (env_at 2000 True)
             (entry_with iso1000 ''95'')
             (snd (process_event worker_lib0 model0 (env_at 2000 True)
               (entry_with iso1000 ''95'')
               (snd (process_event worker_lib0 model0 (env_at 2000 True)
                 (entry_with iso1000 ''95'')
                 (snd (process_event worker_lib0 model0 (env_at 2000 True)
                   (entry_with iso1000 ''95'') worker0)))))))))))))"

text \<open>
  A worker process that starts again after a crash: \<^verbatim>\<open>patient_states\<close> is empty,
  the table is as the crashed process left it.
\<close>

definition restart :: "worker_state \<Rightarrow> worker_state" where
  "restart st = \<lparr>patient_states = Map.empty, anomalies = anomalies st\<rparr>"

text \<open>
  A flagged entry processed by the warm worker, and processed again by the restarted
  worker, with the unique index in place.
\<close>

definition first_run :: worker_state where
  "first_run =
     snd (process_event worker_lib0 model0 (env_at 2000 True) (entry_with iso1000 ''105'')
       worker_warm)"


text \<open>
  A stream whose only entry was delivered to \<open>worker-7\<close> and never acknowledged, and
  the surroundings of the worker that starts on it.
\<close>

definition stream_crashed :: stream_group where
  "stream_crashed =
     \<lparr>entries = [(1, entry_with iso1000 ''180'')], group_exists = True, last_delivered = 1,
      pending = [(1, ''worker-7'')]\<rparr>"

definition envs0 :: "nat \<Rightarrow> worker_env" where
  "envs0 i = env_at 3000 True"

text \<open>
  The state of a worker with the entries \<open>p\<close> put in front of the pending list of its
  group.
\<close>

definition add_pending :: "(nat \<times> string) list \<Rightarrow> worker_sys \<Rightarrow> worker_sys" where
  "add_pending p s = s\<lparr>grp := (grp s)\<lparr>pending := p @ pending (grp s)\<rparr>\<rparr>"

section \<open>Validator: results\<close>

lemma check_int_set:
  "set (check_int name lo hi v) = (if lo \<le> v \<and> v \<le> hi then {} else {name})"
  by (simp add: check_int_def)

lemma check_float_set:
  "set (check_float name lo hi v) = (if lo \<le> v \<and> v \<le> hi then {} else {name})"
  by (simp add: check_float_def)

lemma check_str_set:
  "set (check_str name lo hi v) =
     (if lo \<le> length v \<and> length v \<le> hi then {} else {name})"
  by (simp add: check_str_def)

lemma check_timestamp_set:
  "set (check_timestamp current v) = (if v - current \<le> 300 then {} else {''timestamp''})"
  by (simp add: check_timestamp_def timestamp_not_future_def)

lemma field_errors_set:
  "set (field_errors current c) =
     (if 1 \<le> length (patient_id c) \<and> length (patient_id c) \<le> 50 then {} else {''patient_id''}) \<union>
     (if timestamp c - current \<le> 300 then {} else {''timestamp''}) \<union>
     (if 30 \<le> hr c \<and> hr c \<le> 250 then {} else {''hr''}) \<union>
     (if 50 \<le> bp_sys c \<and> bp_sys c \<le> 250 then {} else {''bp_sys''}) \<union>
     (if 30 \<le> bp_dia c \<and> bp_dia c \<le> 150 then {} else {''bp_dia''}) \<union>
     (if 50 \<le> spo2 c \<and> spo2 c \<le> 100 then {} else {''spo2''}) \<union>
     (if 4 \<le> rr c \<and> rr c \<le> 60 then {} else {''rr''}) \<union>
     (if 30 \<le> temp c \<and> temp c \<le> 45 then {} else {''temp''})"
  unfolding field_errors_def set_append check_int_set check_float_set check_str_set
    check_timestamp_set sys_greater_than_dia_def
  by (simp only: Un_assoc)

lemma if_singleton_empty: "((if P then {} else {x}) = {}) = P"
  by simp

lemma mem_if_singleton: "(y \<in> (if P then {} else {x})) = (\<not> P \<and> y = x)"
  by simp

lemma field_errors_empty_iff: "field_errors current c = [] \<longleftrightarrow> in_ranges current c"
proof -
  have "field_errors current c = [] \<longleftrightarrow> set (field_errors current c) = {}"
    by simp
  also have "\<dots> \<longleftrightarrow> in_ranges current c"
    unfolding field_errors_set in_ranges_def Un_empty if_singleton_empty
    by blast
  finally show ?thesis .
qed

lemma field_errors_names:
  "(''patient_id'' \<in> set (field_errors current c)) =
     (length (patient_id c) < 1 \<or> 50 < length (patient_id c))"
  "(''timestamp'' \<in> set (field_errors current c)) = (300 < timestamp c - current)"
  "(''hr'' \<in> set (field_errors current c)) = (hr c < 30 \<or> 250 < hr c)"
  "(''bp_sys'' \<in> set (field_errors current c)) = (bp_sys c < 50 \<or> 250 < bp_sys c)"
  "(''bp_dia'' \<in> set (field_errors current c)) = (bp_dia c < 30 \<or> 150 < bp_dia c)"
  "(''spo2'' \<in> set (field_errors current c)) = (spo2 c < 50 \<or> 100 < spo2 c)"
  "(''rr'' \<in> set (field_errors current c)) = (rr c < 4 \<or> 60 < rr c)"
  "(''temp'' \<in> set (field_errors current c)) = (temp c < 30 \<or> 45 < temp c)"
  unfolding field_errors_set Un_iff mem_if_singleton
  by (simp_all add: not_le)

text \<open>
  C9. A candidate is accepted exactly when every field lies in its inclusive range and
  the timestamp is at most 300 s after the validator's clock; a rejected candidate gets
  a validation failure that names a field exactly when that field is out of range.
\<close>

theorem validate_accepts_iff_in_ranges:
  "(validate current c = Inr c) = in_ranges current c \<and>
   (validate current c = Inl (field_errors current c)) = (\<not> in_ranges current c) \<and>
   (''patient_id'' \<in> set (field_errors current c)) =
      (length (patient_id c) < 1 \<or> 50 < length (patient_id c)) \<and>
   (''timestamp'' \<in> set (field_errors current c)) = (300 < timestamp c - current) \<and>
   (''hr'' \<in> set (field_errors current c)) = (hr c < 30 \<or> 250 < hr c) \<and>
   (''bp_sys'' \<in> set (field_errors current c)) = (bp_sys c < 50 \<or> 250 < bp_sys c) \<and>
   (''bp_dia'' \<in> set (field_errors current c)) = (bp_dia c < 30 \<or> 150 < bp_dia c) \<and>
   (''spo2'' \<in> set (field_errors current c)) = (spo2 c < 50 \<or> 100 < spo2 c) \<and>
   (''rr'' \<in> set (field_errors current c)) = (rr c < 4 \<or> 60 < rr c) \<and>
   (''temp'' \<in> set (field_errors current c)) = (temp c < 30 \<or> 45 < temp c)"
proof -
  have a: "(validate current c = Inr c) = in_ranges current c"
    by (simp add: validate_def Let_def field_errors_empty_iff)
  have b: "(validate current c = Inl (field_errors current c)) = (\<not> in_ranges current c)"
    by (simp add: validate_def Let_def field_errors_empty_iff)
  show ?thesis
    using a b field_errors_names [of current c] by blast
qed

text \<open>
  The boundary cases of the specification: \<open>hr = 30\<close> and a timestamp 299 s ahead are
  admitted; \<open>hr = 29\<close> and a timestamp 301 s ahead are rejected, naming the field.
\<close>

theorem validate_accepts_iff_in_ranges_witness:
  "validate 1000 (sample_reading\<lparr>hr := 30\<rparr>) = Inr (sample_reading\<lparr>hr := 30\<rparr>) \<and>
   validate 1000 (sample_reading\<lparr>timestamp := 1299\<rparr>) =
     Inr (sample_reading\<lparr>timestamp := 1299\<rparr>) \<and>
   validate 1000 (sample_reading\<lparr>hr := 29\<rparr>) = Inl [''hr''] \<and>
   validate 1000 (sample_reading\<lparr>timestamp := 1301\<rparr>) = Inl [''timestamp'']"
proof -
  have 1: "in_ranges 1000 (sample_reading\<lparr>hr := 30\<rparr>)"
    and 2: "in_ranges 1000 (sample_reading\<lparr>timestamp := 1299\<rparr>)"
    and 3: "\<not> in_ranges 1000 (sample_reading\<lparr>hr := 29\<rparr>)"
    and 4: "\<not> in_ranges 1000 (sample_reading\<lparr>timestamp := 1301\<rparr>)"
    by (simp_all add: in_ranges_def sample_reading_def)
  have 5: "field_errors 1000 (sample_reading\<lparr>hr := 29\<rparr>) = [''hr'']"
    and 6: "field_errors 1000 (sample_reading\<lparr>timestamp := 1301\<rparr>) = [''timestamp'']"
    by (simp_all add: field_errors_def sample_reading_def check_int_def check_float_def
        check_str_def check_timestamp_def timestamp_not_future_def sys_greater_than_dia_def)
  show ?thesis
    using 1 2 3 4 5 6
      validate_accepts_iff_in_ranges [of 1000 "sample_reading\<lparr>hr := 30\<rparr>"]
      validate_accepts_iff_in_ranges [of 1000 "sample_reading\<lparr>timestamp := 1299\<rparr>"]
      validate_accepts_iff_in_ranges [of 1000 "sample_reading\<lparr>hr := 29\<rparr>"]
      validate_accepts_iff_in_ranges [of 1000 "sample_reading\<lparr>timestamp := 1301\<rparr>"]
    by simp
qed

section \<open>Rate limiter: results\<close>

lemma check_rate_limit_fresh:
  assumes "redis_get now c (rate_key pid) = None"
  shows "check_rate_limit now pid c =
           (None, c(rate_key pid \<mapsto> \<lparr>cval = 1, expires_at = Some (now + 10)\<rparr>))"
  using assms
  by (simp add: check_rate_limit_def redis_incr_def redis_expire_def redis_get_def Let_def)

lemma check_rate_limit_live:
  assumes "redis_get now c (rate_key pid) = Some e"
  shows "check_rate_limit now pid c =
           (if cval e + 1 > 20 then Some rate_limited else None,
            c(rate_key pid \<mapsto>
               (if cval e + 1 = 1
                then e\<lparr>cval := cval e + 1, expires_at := Some (now + 10)\<rparr>
                else e\<lparr>cval := cval e + 1\<rparr>)))"
proof -
  have live: "redis_get now (c(rate_key pid \<mapsto> e\<lparr>cval := v\<rparr>)) (rate_key pid) =
                Some (e\<lparr>cval := v\<rparr>)" for v
    using assms by (auto simp: redis_get_def split: option.splits if_splits)
  show ?thesis
    using assms live
    by (simp add: check_rate_limit_def redis_incr_def redis_expire_def Let_def
        rate_limited_def)
qed

lemma rate_attempts_window:
  assumes "c (rate_key pid) = Some \<lparr>cval = int (Suc m), expires_at = Some (t0 + 10)\<rparr>"
    and "\<forall>t\<in>set ts. t < t0 + 10"
  shows "rate_attempts ts pid c =
           map (\<lambda>k. if Suc m + k < 20 then None else Some rate_limited) [0..<length ts]"
  using assms
proof (induction ts arbitrary: c m)
  case Nil
  then show ?case by simp
next
  case (Cons t ts)
  let ?e = "\<lparr>cval = int (Suc m), expires_at = Some (t0 + 10)\<rparr>"
  let ?c' = "c(rate_key pid \<mapsto> \<lparr>cval = int (Suc (Suc m)), expires_at = Some (t0 + 10)\<rparr>)"
  from Cons.prems have "t < t0 + 10" by simp
  with Cons.prems(1) have live: "redis_get t c (rate_key pid) = Some ?e"
    by (simp add: redis_get_def)
  have step: "check_rate_limit t pid c =
                (if Suc m < 20 then None else Some rate_limited, ?c')"
    using check_rate_limit_live [OF live] by (auto simp: algebra_simps)
  have rest: "rate_attempts ts pid ?c' =
                map (\<lambda>k. if Suc (Suc m) + k < 20 then None else Some rate_limited) [0..<length ts]"
    using Cons.prems by (intro Cons.IH) simp_all
  have "map (\<lambda>k. if Suc m + k < 20 then None else Some rate_limited) [0..<length (t # ts)] =
          (if Suc m < 20 then None else Some rate_limited) #
          map (\<lambda>k. if Suc (Suc m) + k < 20 then None else Some rate_limited) [0..<length ts]"
    by (simp add: upt_conv_Cons map_Suc_upt [symmetric] del: upt_Suc)
  with step rest show ?case by simp
qed

lemma rate_attempts_from_fresh:
  assumes "redis_get t0 c (rate_key pid) = None"
    and "\<forall>t\<in>set ts. t < t0 + 10"
  shows "rate_attempts (t0 # ts) pid c =
           map (\<lambda>k. if k < 20 then None else Some rate_limited) [0..<Suc (length ts)]"
proof -
  let ?c' = "c(rate_key pid \<mapsto> \<lparr>cval = 1, expires_at = Some (t0 + 10)\<rparr>)"
  have "rate_attempts ts pid ?c' =
          map (\<lambda>k. if Suc 0 + k < 20 then None else Some rate_limited) [0..<length ts]"
    using assms(2) by (intro rate_attempts_window) simp_all
  moreover have "map (\<lambda>k. if k < 20 then None else Some rate_limited) [0..<Suc (length ts)] =
          None # map (\<lambda>k. if Suc 0 + k < 20 then None else Some rate_limited) [0..<length ts]"
    by (simp add: upt_conv_Cons map_Suc_upt [symmetric] del: upt_Suc)
  ultimately show ?thesis
    using check_rate_limit_fresh [OF assms(1)] by simp
qed

lemma check_rate_limit_step:
  "check_rate_limit now pid c =
     (if 20 < rate_count now c pid + 1 then Some rate_limited else None,
      c(rate_key pid \<mapsto>
         \<lparr>cval = rate_count now c pid + 1,
          expires_at = (if rate_count now c pid + 1 = 1 then Some (now + 10)
                        else rate_expiry now c pid)\<rparr>))"
proof (cases "redis_get now c (rate_key pid)")
  case None
  then show ?thesis
    using check_rate_limit_fresh [OF None] by (simp add: rate_count_def rate_expiry_def)
next
  case (Some e)
  then show ?thesis
    using check_rate_limit_live [OF Some]
    by (cases e) (simp add: rate_count_def rate_expiry_def)
qed

lemma rate_key_inj: "(rate_key pid = rate_key pid') = (pid = pid')"
  by (simp add: rate_key_def)

lemma check_rate_limit_frame:
  assumes "k \<noteq> rate_key pid"
  shows "snd (check_rate_limit now pid c) k = c k"
  using assms by (simp add: check_rate_limit_step)

lemma rate_count_cong:
  assumes "c1 (rate_key pid) = c2 (rate_key pid)"
  shows "rate_count now c1 pid = rate_count now c2 pid"
    and "rate_expiry now c1 pid = rate_expiry now c2 pid"
  using assms by (simp_all add: rate_count_def rate_expiry_def redis_get_def)

lemma rate_attempts_cong:
  assumes "c1 (rate_key pid) = c2 (rate_key pid)"
  shows "rate_attempts ts pid c1 = rate_attempts ts pid c2"
  using assms
proof (induction ts arbitrary: c1 c2)
  case Nil
  show ?case by simp
next
  case (Cons t ts)
  have r: "fst (check_rate_limit t pid c1) = fst (check_rate_limit t pid c2)"
    by (simp add: check_rate_limit_step rate_count_cong [of c1 pid c2, OF Cons.prems])
  have k: "snd (check_rate_limit t pid c1) (rate_key pid) =
           snd (check_rate_limit t pid c2) (rate_key pid)"
    by (simp add: check_rate_limit_step rate_count_cong [of c1 pid c2, OF Cons.prems])
  show ?case
    using r Cons.IH [of "snd (check_rate_limit t pid c1)" "snd (check_rate_limit t pid c2)",
        OF k]
    by (simp add: case_prod_beta)
qed

lemma rate_attempts_other_patient:
  assumes "pid' \<noteq> pid"
  shows "rate_attempts ts pid' (snd (check_rate_limit now pid c)) = rate_attempts ts pid' c"
proof -
  have "rate_key pid' \<noteq> rate_key pid"
    using assms by (simp add: rate_key_inj)
  then show ?thesis
    by (intro rate_attempts_cong check_rate_limit_frame)
qed

lemma mixed_attempts_per_patient:
  "map snd (filter (\<lambda>x. snd (fst x) = pid) (zip rs (mixed_attempts rs c))) =
     rate_attempts (map fst (filter (\<lambda>x. snd x = pid) rs)) pid c"
proof (induction rs arbitrary: c)
  case Nil
  show ?case by simp
next
  case (Cons req rs)
  obtain t p where req: "req = (t, p)"
    by (cases req)
  show ?case
  proof (cases "p = pid")
    case True
    then show ?thesis
      using Cons.IH [of "snd (check_rate_limit t pid c)"]
      by (simp add: req case_prod_beta)
  next
    case False
    then have "rate_attempts (map fst (filter (\<lambda>x. snd x = pid) rs)) pid
                 (snd (check_rate_limit t p c)) =
               rate_attempts (map fst (filter (\<lambda>x. snd x = pid) rs)) pid c"
      by (intro rate_attempts_other_patient) simp
    with False show ?thesis
      using Cons.IH [of "snd (check_rate_limit t p c)"]
      by (simp add: req case_prod_beta)
  qed
qed

text \<open>
  C8. Every attempt increments the counter of its own patient in one step; the 10 s
  expiry is set exactly when the incremented value is 1; the attempt is admitted while
  the incremented value is at most 20 and answered with HTTP 429 above 20. Hence, of the
  attempts made within 10 s of the one that created the counter, the first 20 are
  admitted and the 21st and all later ones are rejected. The counter is per patient:
  distinct patients have distinct keys, an attempt leaves every other key of the cache
  as it is, and in any interleaving of attempts of several patients the answers given to
  one patient are those given to that patient's attempts alone.
\<close>

theorem check_rate_limit_fixed_window:
  "check_rate_limit now pid c =
     (if 20 < rate_count now c pid + 1 then Some rate_limited else None,
      c(rate_key pid \<mapsto>
         \<lparr>cval = rate_count now c pid + 1,
          expires_at = (if rate_count now c pid + 1 = 1 then Some (now + 10)
                        else rate_expiry now c pid)\<rparr>)) \<and>
   status_code rate_limited = 429 \<and>
   (redis_get t0 c (rate_key pid) = None \<and> (\<forall>t\<in>set ts. t < t0 + 10) \<longrightarrow>
      rate_attempts (t0 # ts) pid c =
        map (\<lambda>k. if k < 20 then None else Some rate_limited) [0..<Suc (length ts)]) \<and>
   (rate_key pid = rate_key pid') = (pid = pid') \<and>
   (pid' \<noteq> pid \<longrightarrow>
      snd (check_rate_limit now pid c) (rate_key pid') = c (rate_key pid') \<and>
      rate_attempts ts' pid' (snd (check_rate_limit now pid c)) = rate_attempts ts' pid' c) \<and>
   map snd (filter (\<lambda>x. snd (fst x) = pid) (zip rs (mixed_attempts rs c))) =
     rate_attempts (map fst (filter (\<lambda>x. snd x = pid) rs)) pid c"
proof -
  have a: "pid' \<noteq> pid \<longrightarrow>
      snd (check_rate_limit now pid c) (rate_key pid') = c (rate_key pid') \<and>
      rate_attempts ts' pid' (snd (check_rate_limit now pid c)) = rate_attempts ts' pid' c"
    using rate_attempts_other_patient [of pid' pid ts' now c]
      check_rate_limit_frame [of "rate_key pid'" pid now c]
    by (simp add: rate_key_inj)
  have b: "status_code rate_limited = 429"
    by (simp add: rate_limited_def HTTPException_def)
  have c: "redis_get t0 c (rate_key pid) = None \<and> (\<forall>t\<in>set ts. t < t0 + 10) \<longrightarrow>
      rate_attempts (t0 # ts) pid c =
        map (\<lambda>k. if k < 20 then None else Some rate_limited) [0..<Suc (length ts)]"
    using rate_attempts_from_fresh [of t0 c pid ts] by blast
  from check_rate_limit_step [of now pid c] b c rate_key_inj [of pid pid'] a
    mixed_attempts_per_patient [of pid rs c]
  show ?thesis
    by (intro conjI)
qed

text \<open>
  Patient \<open>pt-2\<close> makes 21 attempts within 5 s: the 21st is rejected. Patient
  \<open>pt-3\<close>, whose attempts fall between them, is admitted.
\<close>

theorem check_rate_limit_fixed_window_witness:
  "redis_get 1000 Map.empty (rate_key ''pt-2'') = None \<and>
   list_all (\<lambda>t. t < 1000 + 10) (replicate 20 (1005::real)) \<and>
   length (rate_attempts (1000 # replicate 20 1005) ''pt-2'' Map.empty) = 21 \<and>
   rate_attempts (1000 # replicate 20 1005) ''pt-2'' Map.empty ! 0 = None \<and>
   rate_attempts (1000 # replicate 20 1005) ''pt-2'' Map.empty ! 19 = None \<and>
   rate_attempts (1000 # replicate 20 1005) ''pt-2'' Map.empty ! 20 = Some rate_limited \<and>
   status_code rate_limited = 429 \<and>
   ''pt-3'' \<noteq> ''pt-2'' \<and>
   rate_attempts [1006] ''pt-3'' (snd (check_rate_limit 1000 ''pt-2'' Map.empty)) = [None] \<and>
   map snd (filter (\<lambda>x. snd (fst x) = ''pt-2'')
     (zip ((1000::real, ''pt-2'') # (1001, ''pt-3'') # replicate 20 (1005, ''pt-2''))
        (mixed_attempts ((1000, ''pt-2'') # (1001, ''pt-3'') # replicate 20 (1005, ''pt-2''))
           Map.empty))) =
     replicate 20 None @ [Some rate_limited]"
proof -
  have h: "redis_get 1000 Map.empty (rate_key ''pt-2'') = None \<and>
           (\<forall>t\<in>set (replicate 20 (1005::real)). t < 1000 + 10)"
    by (simp add: redis_get_def)
  have w: "rate_attempts (1000 # replicate 20 1005) ''pt-2'' Map.empty =
          map (\<lambda>k. if k < 20 then None else Some rate_limited) [0..<21]"
    using h check_rate_limit_fixed_window [of 0 "''pt-2''" Map.empty 1000
        "replicate 20 1005"]
    by simp
  have s: "status_code rate_limited = 429"
    using check_rate_limit_fixed_window [of 0 "''pt-2''" Map.empty 1000 "[]"] by simp
  have d: "''pt-3'' \<noteq> ''pt-2''"
    by simp
  have "rate_attempts [1006] ''pt-3'' (snd (check_rate_limit 1000 ''pt-2'' Map.empty)) =
          rate_attempts [1006] ''pt-3'' Map.empty"
    using d check_rate_limit_fixed_window [of 1000 "''pt-2''" Map.empty 0 "[]" "''pt-3''"
        "[1006]" "[]", THEN conjunct2, THEN conjunct2, THEN conjunct2, THEN conjunct2,
        THEN conjunct1]
    by simp
  then have o: "rate_attempts [1006] ''pt-3'' (snd (check_rate_limit 1000 ''pt-2'' Map.empty)) =
                  [None]"
    by (simp add: check_rate_limit_step rate_count_def redis_get_def)
  have f: "map fst (filter (\<lambda>x. snd x = ''pt-2'')
             ((1000, ''pt-2'') # (1001, ''pt-3'') # replicate 20 (1005::real, ''pt-2''))) =
           1000 # replicate 20 1005"
    by (simp add: map_replicate)
  have m: "map snd (filter (\<lambda>x. snd (fst x) = ''pt-2'')
     (zip ((1000::real, ''pt-2'') # (1001, ''pt-3'') # replicate 20 (1005, ''pt-2''))
        (mixed_attempts ((1000, ''pt-2'') # (1001, ''pt-3'') # replicate 20 (1005, ''pt-2''))
           Map.empty))) =
     rate_attempts (1000 # replicate 20 1005) ''pt-2'' Map.empty"
    using check_rate_limit_fixed_window [of 0 "''pt-2''" Map.empty 0 "[]" "''pt-2''" "[]"
        "(1000, ''pt-2'') # (1001, ''pt-3'') # replicate 20 (1005, ''pt-2'')",
        THEN conjunct2, THEN conjunct2, THEN conjunct2, THEN conjunct2, THEN conjunct2]
    unfolding f .
  have v: "map (\<lambda>k. if k < 20 then None else Some rate_limited) [0..<21] =
             replicate 20 None @ [Some rate_limited]"
    by (simp add: upt_rec eval_nat_numeral)
  have l: "list_all (\<lambda>t. t < 1000 + 10) (replicate 20 (1005::real))"
    using h by (simp add: list_all_iff)
  have n: "length (rate_attempts (1000 # replicate 20 1005) ''pt-2'' Map.empty) = 21"
    "rate_attempts (1000 # replicate 20 1005) ''pt-2'' Map.empty ! 0 = None"
    "rate_attempts (1000 # replicate 20 1005) ''pt-2'' Map.empty ! 19 = None"
    "rate_attempts (1000 # replicate 20 1005) ''pt-2'' Map.empty ! 20 = Some rate_limited"
    unfolding w by (simp_all del: upt_Suc)
  from h l n s d o m [unfolded w v] show ?thesis
    by (intro conjI) blast+
qed

section \<open>Ingest endpoint: results\<close>

lemma idem_key_not_rate_key: "idem_key lib reading \<noteq> rate_key pid"
  by (simp add: idem_key_def rate_key_def)

lemma redis_get_after_rate_limit:
  assumes "k \<noteq> rate_key pid"
  shows "redis_get now (snd (check_rate_limit now pid c)) k = redis_get now c k"
  using assms by (simp add: check_rate_limit_step redis_get_def)

lemma redis_exists_after_rate_limit:
  "redis_exists now (snd (check_rate_limit now (patient_id reading) c)) (idem_key lib reading) =
   redis_exists now c (idem_key lib reading)"
  by (simp add: redis_exists_def redis_get_after_rate_limit idem_key_not_rate_key)

lemma redis_exists_setex: "redis_exists now (redis_setex now c k 600 v) k"
  by (simp add: redis_exists_def redis_setex_def redis_get_def)

text \<open>The endpoint after the rate limiter has admitted the request.\<close>

lemma ingest_vitals_admitted:
  assumes "fst (check_rate_limit now (patient_id reading) (cache s)) = None"
  shows "ingest_vitals lib sv now reading s =
     (let c1 = snd (check_rate_limit now (patient_id reading) (cache s)) in
      if redis_exists now (cache s) (idem_key lib reading)
      then (ignored_response, s\<lparr>cache := c1\<rparr>)
      else
        (case persist_reading (db_ok sv) reading (db s) of
           Inl e \<Rightarrow> (HTTPException 500 ''Database persistence failed'', s\<lparr>cache := c1\<rparr>)
         | Inr (event_id, d) \<Rightarrow>
             (case xadd (xadd_ok sv) (stream_payload lib reading event_id) (stream s) of
                None \<Rightarrow>
                  (HTTPException 503 ''Stream service unavailable'',
                   s\<lparr>cache := c1, db := d, effects := effects s @ [DurableCommit event_id]\<rparr>)
              | Some (msg_id, st) \<Rightarrow>
                  if setex_ok sv
                  then (queued_response msg_id event_id,
                        s\<lparr>cache := redis_setex now c1 (idem_key lib reading) 600 1,
                          db := d, stream := st,
                          effects := effects s @
                            [DurableCommit event_id, StreamPublish msg_id,
                             IdempotencySet (idem_key lib reading)]\<rparr>)
                  else (HTTPException 503 ''Stream service unavailable'',
                        s\<lparr>cache := c1, db := d, stream := st,
                          effects := effects s @
                            [DurableCommit event_id, StreamPublish msg_id]\<rparr>))))"
proof -
  obtain c1 where c1: "check_rate_limit now (patient_id reading) (cache s) = (None, c1)"
    using assms by (cases "check_rate_limit now (patient_id reading) (cache s)") simp
  have ex: "redis_exists now c1 (idem_key lib reading) =
            redis_exists now (cache s) (idem_key lib reading)"
    using redis_exists_after_rate_limit [of now reading "cache s" lib] c1 by simp
  show ?thesis
    unfolding ingest_vitals_def c1 Let_def
    by (simp add: ex split: sum.split option.split prod.split)
qed

lemma persist_reading_new:
  assumes "up" and "(patient_id reading, timestamp reading) \<notin> set (map event_key (vitals_events d))"
  shows "persist_reading up reading d =
           Inr (next_event_id d,
                d\<lparr>patients := insert (patient_id reading) (patients d),
                  vitals_events := vitals_events d @ [(next_event_id d, reading)],
                  next_event_id := next_event_id d + 1\<rparr>)"
  using assms by (simp add: persist_reading_def)

lemma persist_reading_duplicate:
  assumes "(patient_id reading, timestamp reading) \<in> set (map event_key (vitals_events d))"
  shows "\<exists>e. persist_reading up reading d = Inl e"
  using assms by (simp add: persist_reading_def)

lemma ingest_vitals_persisted:
  assumes adm: "fst (check_rate_limit now (patient_id reading) (cache s)) = None"
    and miss: "\<not> redis_exists now (cache s) (idem_key lib reading)"
    and new: "(patient_id reading, timestamp reading) \<notin> set (map event_key (vitals_events (db s)))"
    and up: "db_ok sv"
  shows "ingest_vitals lib sv now reading s =
     (let c1 = snd (check_rate_limit now (patient_id reading) (cache s));
          event_id = next_event_id (db s);
          d = (db s)\<lparr>patients := insert (patient_id reading) (patients (db s)),
                  vitals_events := vitals_events (db s) @ [(event_id, reading)],
                  next_event_id := event_id + 1\<rparr>;
          msg_id = Suc (length (stream s))
      in if \<not> xadd_ok sv
         then (HTTPException 503 ''Stream service unavailable'',
               s\<lparr>cache := c1, db := d, effects := effects s @ [DurableCommit event_id]\<rparr>)
         else if setex_ok sv
         then (queued_response msg_id event_id,
               s\<lparr>cache := redis_setex now c1 (idem_key lib reading) 600 1, db := d,
                 stream := stream s @ [(msg_id, stream_payload lib reading event_id)],
                 effects := effects s @
                   [DurableCommit event_id, StreamPublish msg_id,
                    IdempotencySet (idem_key lib reading)]\<rparr>)
         else (HTTPException 503 ''Stream service unavailable'',
               s\<lparr>cache := c1, db := d,
                 stream := stream s @ [(msg_id, stream_payload lib reading event_id)],
                 effects := effects s @ [DurableCommit event_id, StreamPublish msg_id]\<rparr>))"
  unfolding ingest_vitals_admitted [OF adm] Let_def
  using miss by (simp add: persist_reading_new [OF up new] xadd_def)

text \<open>
  C1. For a rate-admitted request with no cache hit whose (patient, timestamp) pair is
  not stored yet, with the store reachable: the event row and the patient row are
  committed; the stream publish follows the commit and the idempotency key is set only
  after a successful publish; when the publish fails the answer is HTTP 503, the row
  stays stored, nothing is appended to the stream and the idempotency key is not set.
\<close>

theorem ingest_commit_precedes_publish:
  assumes "fst (check_rate_limit now (patient_id reading) (cache s)) = None"
    and "\<not> redis_exists now (cache s) (idem_key lib reading)"
    and "(patient_id reading, timestamp reading) \<notin> set (map event_key (vitals_events (db s)))"
    and "db_ok sv"
    and "ingest_vitals lib sv now reading s = (resp, s')"
  shows "vitals_events (db s') = vitals_events (db s) @ [(next_event_id (db s), reading)] \<and>
         patient_id reading \<in> patients (db s') \<and>
         (xadd_ok sv \<and> setex_ok sv \<longrightarrow>
            resp = queued_response (Suc (length (stream s))) (next_event_id (db s)) \<and>
            stream s' = stream s @
              [(Suc (length (stream s)), stream_payload lib reading (next_event_id (db s)))] \<and>
            redis_exists now (cache s') (idem_key lib reading) \<and>
            effects s' = effects s @
              [DurableCommit (next_event_id (db s)), StreamPublish (Suc (length (stream s))),
               IdempotencySet (idem_key lib reading)]) \<and>
         (\<not> xadd_ok sv \<longrightarrow>
            resp = HTTPException 503 ''Stream service unavailable'' \<and>
            status_code resp = 503 \<and>
            stream s' = stream s \<and>
            \<not> redis_exists now (cache s') (idem_key lib reading) \<and>
            effects s' = effects s @ [DurableCommit (next_event_id (db s))]) \<and>
         (xadd_ok sv \<and> \<not> setex_ok sv \<longrightarrow>
            status_code resp = 503 \<and>
            \<not> redis_exists now (cache s') (idem_key lib reading) \<and>
            effects s' = effects s @
              [DurableCommit (next_event_id (db s)), StreamPublish (Suc (length (stream s)))])"
proof -
  note eq = ingest_vitals_persisted [OF assms(1-4), unfolded Let_def]
  have miss': "\<not> redis_exists now (snd (check_rate_limit now (patient_id reading) (cache s)))
                 (idem_key lib reading)"
    using assms(2) by (simp add: redis_exists_after_rate_limit)
  show ?thesis
  proof (cases "xadd_ok sv")
    case False
    with eq assms(5) miss' show ?thesis
      by (auto simp: HTTPException_def)
  next
    case True
    show ?thesis
    proof (cases "setex_ok sv")
      case True
      with \<open>xadd_ok sv\<close> eq assms(5) show ?thesis
        by (auto simp: redis_exists_setex)
    next
      case False
      with \<open>xadd_ok sv\<close> eq assms(5) miss' show ?thesis
        by (auto simp: HTTPException_def)
    qed
  qed
qed

lemma sample_request_facts:
  "fst (check_rate_limit 1000 (patient_id sample_reading) (cache api0)) = None"
  "snd (check_rate_limit 1000 (patient_id sample_reading) (cache api0)) =
     [rate_key ''pt-1'' \<mapsto> \<lparr>cval = 1, expires_at = Some 1010\<rparr>]"
  "\<not> redis_exists 1000 (cache api0) (idem_key lib0 sample_reading)"
  "(patient_id sample_reading, timestamp sample_reading) \<notin>
     set (map event_key (vitals_events (db api0)))"
  by (simp_all add: check_rate_limit_step rate_count_def redis_exists_def redis_get_def
      api0_def empty_store_def sample_reading_def)

theorem ingest_commit_precedes_publish_witness:
  "fst (check_rate_limit 1000 (patient_id sample_reading) (cache api0)) = None \<and>
   \<not> redis_exists 1000 (cache api0) (idem_key lib0 sample_reading) \<and>
   (patient_id sample_reading, timestamp sample_reading) \<notin>
     set (map event_key (vitals_events (db api0))) \<and>
   status_code (fst (ingest_vitals lib0 (all_up\<lparr>xadd_ok := False\<rparr>) 1000 sample_reading api0))
     = 503 \<and>
   vitals_events (db api_after_stream_failure) = [(1, sample_reading)] \<and>
   stream api_after_stream_failure = [] \<and>
   \<not> redis_exists 1000 (cache api_after_stream_failure) (idem_key lib0 sample_reading) \<and>
   effects api_after_stream_failure = [DurableCommit 1] \<and>
   status_code (fst (ingest_vitals lib0 all_up 1000 sample_reading api0)) = 202 \<and>
   vitals_events (db api_after_accept) = [(1, sample_reading)] \<and>
   redis_exists 1000 (cache api_after_accept) (idem_key lib0 sample_reading) \<and>
   effects api_after_accept =
     [DurableCommit 1, StreamPublish 1, IdempotencySet (idem_key lib0 sample_reading)]"
proof -
  have down: "db_ok (all_up\<lparr>xadd_ok := False\<rparr>)" "\<not> xadd_ok (all_up\<lparr>xadd_ok := False\<rparr>)"
    and up: "db_ok all_up" "xadd_ok all_up" "setex_ok all_up"
    by (simp_all add: all_up_def)
  have init: "vitals_events (db api0) = []" "next_event_id (db api0) = 1" "stream api0 = []"
    "effects api0 = []"
    by (simp_all add: api0_def empty_store_def)
  note a = ingest_commit_precedes_publish [OF sample_request_facts(1,3,4) down(1)
      prod.collapse [symmetric]]
  note b = ingest_commit_precedes_publish [OF sample_request_facts(1,3,4) up(1)
      prod.collapse [symmetric]]
  show ?thesis
    using a b down up sample_request_facts(1,3,4)
    by (simp add: init api_after_stream_failure_def api_after_accept_def
        queued_response_def HTTPException_def)
qed

section \<open>Ingest endpoint: duplicates\<close>

lemma api_after_stream_failure_eq:
  "api_after_stream_failure =
     \<lparr>cache = [rate_key ''pt-1'' \<mapsto> \<lparr>cval = 1, expires_at = Some 1010\<rparr>],
      db = \<lparr>patients = {''pt-1''}, vitals_events = [(1, sample_reading)], next_event_id = 2\<rparr>,
      stream = [], effects = [DurableCommit 1]\<rparr>"
proof -
  have up: "db_ok (all_up\<lparr>xadd_ok := False\<rparr>)"
    by (simp add: all_up_def)
  show ?thesis
    unfolding api_after_stream_failure_def
      ingest_vitals_persisted [OF sample_request_facts(1,3,4) up] Let_def
      sample_request_facts(2)
    by (simp add: all_up_def api0_def empty_store_def sample_reading_def)
qed

lemma api_after_accept_eq:
  "api_after_accept =
     \<lparr>cache = [rate_key ''pt-1'' \<mapsto> \<lparr>cval = 1, expires_at = Some 1010\<rparr>,
               idem_key lib0 sample_reading \<mapsto> \<lparr>cval = 1, expires_at = Some 1600\<rparr>],
      db = \<lparr>patients = {''pt-1''}, vitals_events = [(1, sample_reading)], next_event_id = 2\<rparr>,
      stream = [(1, stream_payload lib0 sample_reading 1)],
      effects = [DurableCommit 1, StreamPublish 1, IdempotencySet (idem_key lib0 sample_reading)]\<rparr>"
proof -
  have up: "db_ok all_up"
    by (simp add: all_up_def)
  show ?thesis
    unfolding api_after_accept_def
      ingest_vitals_persisted [OF sample_request_facts(1,3,4) up] Let_def
      sample_request_facts(2)
    by (simp add: all_up_def api0_def empty_store_def redis_setex_def)
      (simp add: sample_reading_def)
qed

text \<open>
  A request whose pair is already stored and whose idempotency key is not cached: the
  unique violation is caught with every other \<^verbatim>\<open>psycopg.Error\<close>.
\<close>

lemma ingest_vitals_duplicate_row:
  assumes "fst (check_rate_limit now (patient_id reading) (cache s)) = None"
    and "\<not> redis_exists now (cache s) (idem_key lib reading)"
    and "(patient_id reading, timestamp reading) \<in> set (map event_key (vitals_events (db s)))"
  shows "ingest_vitals lib sv now reading s =
           (HTTPException 500 ''Database persistence failed'',
            s\<lparr>cache := snd (check_rate_limit now (patient_id reading) (cache s))\<rparr>)"
proof -
  obtain e where "persist_reading (db_ok sv) reading (db s) = Inl e"
    using persist_reading_duplicate [OF assms(3)] by blast
  then show ?thesis
    unfolding ingest_vitals_admitted [OF assms(1)] Let_def using assms(2) by simp
qed

text \<open>
  C2. The sample reading is ingested once while the stream is down (HTTP 503, row
  stored, no idempotency key) and sent again one second later with every service up:
  the insert hits the unique index and the caller gets HTTP 500
  \<^verbatim>\<open>Database persistence failed\<close>, not a duplicate report; nothing reaches the stream.
\<close>

theorem ingest_retry_after_503_is_500:
  "(patient_id sample_reading, timestamp sample_reading) \<in>
     set (map event_key (vitals_events (db api_after_stream_failure))) \<and>
   \<not> redis_exists 1001 (cache api_after_stream_failure) (idem_key lib0 sample_reading) \<and>
   fst (check_rate_limit 1001 (patient_id sample_reading) (cache api_after_stream_failure))
     = None \<and>
   fst (ingest_vitals lib0 all_up 1001 sample_reading api_after_stream_failure) =
     \<lparr>status_code = 500, body = [(''detail'', JStr ''Database persistence failed'')]\<rparr> \<and>
   stream (snd (ingest_vitals lib0 all_up 1001 sample_reading api_after_stream_failure)) = [] \<and>
   vitals_events (db (snd (ingest_vitals lib0 all_up 1001 sample_reading
     api_after_stream_failure))) = [(1, sample_reading)]"
proof -
  have dup: "(patient_id sample_reading, timestamp sample_reading) \<in>
     set (map event_key (vitals_events (db api_after_stream_failure)))"
    by (simp add: api_after_stream_failure_eq event_key_def)
  have miss: "\<not> redis_exists 1001 (cache api_after_stream_failure) (idem_key lib0 sample_reading)"
    by (simp add: api_after_stream_failure_eq redis_exists_def redis_get_def
        idem_key_not_rate_key)
  have adm: "fst (check_rate_limit 1001 (patient_id sample_reading)
               (cache api_after_stream_failure)) = None"
    by (simp add: api_after_stream_failure_eq check_rate_limit_step rate_count_def
        redis_get_def sample_reading_def)
  show ?thesis
    using dup miss adm
    by (simp add: ingest_vitals_duplicate_row [OF adm miss dup] HTTPException_def)
      (simp add: api_after_stream_failure_eq)
qed

text \<open>
  C3, as stated, fails twice: a cache hit is answered with the route's status 202, not
  200; and the rate limiter runs first, so a request whose key is cached is answered with
  429 once the patient's counter is above its ceiling.
\<close>

theorem ingest_cache_hit_counterexample:
  "redis_exists 1001 (cache api_after_accept) (idem_key lib0 sample_reading) \<and>
   status_code (fst (ingest_vitals lib0 all_up 1001 sample_reading api_after_accept)) = 202 \<and>
   status_code (fst (ingest_vitals lib0 all_up 1001 sample_reading api_after_accept)) \<noteq> 200 \<and>
   redis_exists 1001 (cache api_rate_exhausted) (idem_key lib0 sample_reading) \<and>
   status_code (fst (ingest_vitals lib0 all_up 1001 sample_reading api_rate_exhausted)) = 429"
proof -
  have hit: "redis_exists 1001 (cache api_after_accept) (idem_key lib0 sample_reading)"
    by (simp add: api_after_accept_eq redis_exists_def redis_get_def)
  have adm: "fst (check_rate_limit 1001 (patient_id sample_reading) (cache api_after_accept))
               = None"
    by (simp add: api_after_accept_eq check_rate_limit_step rate_count_def redis_get_def
        sample_reading_def idem_key_not_rate_key [symmetric])
  have a: "status_code (fst (ingest_vitals lib0 all_up 1001 sample_reading api_after_accept))
             = 202"
    unfolding ingest_vitals_admitted [OF adm] Let_def using hit
    by (simp add: ignored_response_def)
  have hit': "redis_exists 1001 (cache api_rate_exhausted) (idem_key lib0 sample_reading)"
    by (simp add: api_rate_exhausted_def api_after_accept_eq redis_exists_def redis_get_def
        idem_key_not_rate_key)
  have lim: "check_rate_limit 1001 (patient_id sample_reading) (cache api_rate_exhausted) =
               (Some rate_limited,
                snd (check_rate_limit 1001 (patient_id sample_reading)
                  (cache api_rate_exhausted)))"
    by (simp add: api_rate_exhausted_def check_rate_limit_step rate_count_def redis_get_def
        sample_reading_def)
  have b: "status_code (fst (ingest_vitals lib0 all_up 1001 sample_reading api_rate_exhausted))
             = 429"
    unfolding ingest_vitals_def by (subst lim) (simp add: rate_limited_def HTTPException_def)
  show ?thesis
    using hit a hit' b by simp
qed

text \<open>
  C3, amended. For every request that the rate limiter admits and whose idempotency key
  is in the cache, the endpoint answers with status 202 and the body
  \<^verbatim>\<open>{status: "ignored", detail: "duplicate_event_cache"}\<close>, and performs no durable
  write and no stream append: store, stream and the list of writes are unchanged.
\<close>

theorem ingest_cache_hit_ignored:
  assumes "fst (check_rate_limit now (patient_id reading) (cache s)) = None"
    and "redis_exists now (cache s) (idem_key lib reading)"
    and "ingest_vitals lib sv now reading s = (resp, s')"
  shows "status_code resp = 202 \<and>
         body resp = [(''status'', JStr ''ignored''), (''detail'', JStr ''duplicate_event_cache'')] \<and>
         db s' = db s \<and> stream s' = stream s \<and> effects s' = effects s"
  using assms(3) unfolding ingest_vitals_admitted [OF assms(1)] Let_def
  using assms(2) by (auto simp: ignored_response_def)

theorem ingest_cache_hit_ignored_witness:
  "fst (check_rate_limit 1001 (patient_id sample_reading) (cache api_after_accept)) = None \<and>
   redis_exists 1001 (cache api_after_accept) (idem_key lib0 sample_reading) \<and>
   status_code (fst (ingest_vitals lib0 all_up 1001 sample_reading api_after_accept)) = 202 \<and>
   body (fst (ingest_vitals lib0 all_up 1001 sample_reading api_after_accept)) =
     [(''status'', JStr ''ignored''), (''detail'', JStr ''duplicate_event_cache'')] \<and>
   vitals_events (db (snd (ingest_vitals lib0 all_up 1001 sample_reading api_after_accept))) =
     [(1, sample_reading)] \<and>
   stream (snd (ingest_vitals lib0 all_up 1001 sample_reading api_after_accept)) =
     [(1, stream_payload lib0 sample_reading 1)]"
proof -
  have hit: "redis_exists 1001 (cache api_after_accept) (idem_key lib0 sample_reading)"
    by (simp add: api_after_accept_eq redis_exists_def redis_get_def)
  have adm: "fst (check_rate_limit 1001 (patient_id sample_reading) (cache api_after_accept))
               = None"
    by (simp add: api_after_accept_eq check_rate_limit_step rate_count_def redis_get_def
        sample_reading_def idem_key_not_rate_key [symmetric])
  show ?thesis
    using hit adm ingest_cache_hit_ignored [OF adm hit prod.collapse [symmetric], of all_up]
    by (simp add: api_after_accept_eq)
qed

section \<open>Sliding windows: results\<close>







lemma add_reading_windows:
  "w_30s (add_reading rd st) = add_event (rd_timestamp rd) rd (w_30s st)"
  "w_2m (add_reading rd st) = add_event (rd_timestamp rd) rd (w_2m st)"
  "w_10m (add_reading rd st) = add_event (rd_timestamp rd) rd (w_10m st)"
  by (simp_all add: add_reading_def Let_def)









section \<open>Processing one stream entry: results\<close>

text \<open>\<^verbatim>\<open>process_event\<close> for an entry whose fields parse, with the store reachable.\<close>

lemma build_reading_timestamp:
  "build_reading ps ts d = Inr rd \<Longrightarrow> rd_timestamp rd = ts"
  by (auto simp: build_reading_def and_then_def split: sum.splits)

lemma process_event_build:
  assumes "d ''patient_id'' = Some pid"
    and "build_reading ps (parse_timestamp ps (wall_clock env) d) d = Inr rd"
  shows "process_event ps m env d st =
     (let state' = add_reading rd (state_of st pid);
          st2 = st\<lparr>patient_states := (patient_states st)(pid \<mapsto> state')\<rparr>
      in if \<not> store_up env then (Some StoreUnavailable, st2)
         else if predict m (feature_vector rd) = - 1
         then (case insert_anomaly (anomalies_unique env) (anomaly_row_of ps m pid rd state')
                      (anomalies st) of
                 None \<Rightarrow> (Some AnomalyUniqueViolation, st2)
               | Some rows \<Rightarrow> (None, st2\<lparr>anomalies := rows\<rparr>))
         else (None, st2))"
proof -
  have ts: "rd_timestamp rd = parse_timestamp ps (wall_clock env) d"
    using build_reading_timestamp [OF assms(2)] by simp
  show ?thesis
    unfolding process_event_def Let_def assms(1) option.case assms(2) sum.case
      anomaly_row_of_def ts
    by simp
qed

lemma process_event_parsed:
  assumes "d ''patient_id'' = Some pid"
    and "build_reading ps (parse_timestamp ps (wall_clock env) d) d = Inr rd"
    and "store_up env"
  shows "process_event ps m env d st =
     (let state' = add_reading rd (state_of st pid);
          st2 = st\<lparr>patient_states := (patient_states st)(pid \<mapsto> state')\<rparr>
      in if predict m (feature_vector rd) = - 1
         then (case insert_anomaly (anomalies_unique env) (anomaly_row_of ps m pid rd state')
                      (anomalies st) of
                 None \<Rightarrow> (Some AnomalyUniqueViolation, st2)
               | Some rows \<Rightarrow> (None, st2\<lparr>anomalies := rows\<rparr>))
         else (None, st2))"
  unfolding process_event_build [OF assms(1,2)] Let_def using assms(3) by simp

lemma state_of_updated:
  "state_of (st\<lparr>patient_states := (patient_states st)(pid \<mapsto> s)\<rparr>) pid = s"
  "state_of (st\<lparr>patient_states := (patient_states st)(pid \<mapsto> s), anomalies := rows\<rparr>) pid = s"
  by (simp_all add: state_of_def)

text \<open>
  C6. When the scorer flags the reading and \<^verbatim>\<open>process_event\<close> returns, one anomaly
  row has been appended, with the inverted score. Its kind follows the priority of the
  classifier on the 10-minute window as it is after the reading was added. With at
  least 6 entries in the window: spike if the heart rate is more than 20 away from the
  window's average heart rate, else drop if the saturation is more than 5 away from the
  window's average saturation, else multi-signal if the score exceeds the float
  \<^verbatim>\<open>0.2\<close>, else drift. With 5 entries or fewer: spike. The averages are the means
  of the heart rates and of the saturations of the entries of that window, rounded to
  two decimals, as \<^verbatim>\<open>get_aggregates\<close> computes them. The kind is always one of
  spike, drop, drift, multi-signal.
\<close>

theorem persisted_anomaly_kind:
  assumes "d ''patient_id'' = Some pid"
    and "build_reading ps (parse_timestamp ps (wall_clock env) d) d = Inr rd"
    and "predict m (feature_vector rd) = - 1"
    and "process_event ps m env d st = (None, st')"
  shows "\<exists>row. anomalies st' = anomalies st @ [row] \<and>
           a_patient_id row = pid \<and>
           a_score row = - decision_function m (feature_vector rd) \<and>
           w_10m (state_of st' pid) =
             add_event (rd_timestamp rd) rd (w_10m (state_of st pid)) \<and>
           a_anomaly_type row =
             (if 6 \<le> length (events (w_10m (state_of st' pid))) then
                (if \<bar>int_sub_float (num ps) (rd_hr rd)
                       (py_round (num ps) (np_mean (num ps)
                          (map (\<lambda>e. of_int (rd_hr (snd e)))
                             (events (w_10m (state_of st' pid))))))\<bar> > 20
                 then ''spike''
                 else if \<bar>int_sub_float (num ps) (rd_spo2 rd)
                            (py_round (num ps) (np_mean (num ps)
                               (map (\<lambda>e. of_int (rd_spo2 (snd e)))
                                  (events (w_10m (state_of st' pid))))))\<bar> > 5
                 then ''drop''
                 else if a_score row > literal_0_2 then ''multi-signal''
                 else ''drift'')
              else ''spike'') \<and>
           a_anomaly_type row \<in> {''spike'', ''drop'', ''drift'', ''multi-signal''}"
proof -
  let ?state' = "add_reading rd (state_of st pid)"
  let ?row = "anomaly_row_of ps m pid rd ?state'"
  let ?w = "w_10m ?state'"
  have up: "store_up env"
  proof (rule ccontr)
    assume "\<not> store_up env"
    then have "fst (process_event ps m env d st) = Some StoreUnavailable"
      unfolding process_event_build [OF assms(1,2)] Let_def by simp
    with assms(4) show False by simp
  qed
  have run: "(case insert_anomaly (anomalies_unique env) ?row (anomalies st) of
                None \<Rightarrow> (Some AnomalyUniqueViolation,
                         st\<lparr>patient_states := (patient_states st)(pid \<mapsto> ?state')\<rparr>)
              | Some rows \<Rightarrow>
                  (None, st\<lparr>patient_states := (patient_states st)(pid \<mapsto> ?state'),
                           anomalies := rows\<rparr>)) = (None, st')"
    using assms(4) unfolding process_event_parsed [OF assms(1,2) up] Let_def
    by (simp add: assms(3))
  obtain rows where ins: "insert_anomaly (anomalies_unique env) ?row (anomalies st) = Some rows"
    and st': "st' = st\<lparr>patient_states := (patient_states st)(pid \<mapsto> ?state'), anomalies := rows\<rparr>"
  proof (cases "insert_anomaly (anomalies_unique env) ?row (anomalies st)")
    case None
    with run show ?thesis by simp
  next
    case (Some rows)
    with run that show ?thesis by simp
  qed
  have rows: "rows = anomalies st @ [?row]"
    using ins unfolding insert_anomaly_def by (simp split: if_splits)
  have w: "state_of st' pid = ?state'"
    unfolding st' by (rule state_of_updated(2))
  have kind: "a_anomaly_type ?row =
                anomaly_type (num ps) rd (get_aggregates (num ps) ?w) (a_score ?row)"
    by (simp add: anomaly_row_of_def)
  have a: "anomalies st' = anomalies st @ [?row]"
    by (simp add: st' rows)
  have b: "a_patient_id ?row = pid" "a_score ?row = - decision_function m (feature_vector rd)"
    by (simp_all add: anomaly_row_of_def)
  have win: "?w = add_event (rd_timestamp rd) rd (w_10m (state_of st pid))"
    by (rule add_reading_windows(3))
  have c: "a_anomaly_type ?row =
             (if 6 \<le> length (events ?w) then
                (if \<bar>int_sub_float (num ps) (rd_hr rd)
                       (py_round (num ps) (np_mean (num ps)
                          (map (\<lambda>e. of_int (rd_hr (snd e))) (events ?w))))\<bar> > 20
                 then ''spike''
                 else if \<bar>int_sub_float (num ps) (rd_spo2 rd)
                            (py_round (num ps) (np_mean (num ps)
                               (map (\<lambda>e. of_int (rd_spo2 (snd e))) (events ?w))))\<bar> > 5
                 then ''drop''
                 else if a_score ?row > literal_0_2 then ''multi-signal''
                 else ''drift'')
              else ''spike'')"
  proof (cases "events ?w = []")
    case True
    then show ?thesis
      unfolding kind anomaly_type_def get_aggregates_def by simp
  next
    case False
    then show ?thesis
      unfolding kind anomaly_type_def get_aggregates_def Let_def
      by (simp add: Suc_le_eq)
  qed
  have f: "a_anomaly_type ?row \<in> {''spike'', ''drop'', ''drift'', ''multi-signal''}"
    unfolding kind anomaly_type_def
    by (cases "get_aggregates (num ps) ?w") simp_all
  show ?thesis
    unfolding w
    by (rule exI [of _ ?row]) (use a b win c f in \<open>intro conjI\<close>)
qed

section \<open>Processing one stream entry: the sample entries\<close>

lemma entry_with_fields:
  "entry_with s h ''patient_id'' = Some ''pt-1''"
  "entry_with s h ''timestamp'' = Some s"
  "entry_with s h ''hr'' = Some h"
  "entry_with s h ''bp_sys'' = Some ''120''"
  "entry_with s h ''bp_dia'' = Some ''80''"
  "entry_with s h ''spo2'' = Some ''98''"
  "entry_with s h ''rr'' = Some ''16''"
  "entry_with s h ''temp'' = Some ''36.8''"
  by (simp_all add: entry_with_def)

lemma parse_timestamp_sample:
  "parse_timestamp worker_lib0 now (entry_with iso1000 h) = 1000"
  "parse_timestamp worker_lib0 now (entry_with ''garbage'' h) = now"
  by (simp_all add: parse_timestamp_def entry_with_fields worker_lib0_def iso1000_def)

lemma build_reading_sample:
  "build_reading worker_lib0 ts (entry_with s ''180'') = Inr (reading_hr ts 180)"
  "build_reading worker_lib0 ts (entry_with s ''105'') = Inr (reading_hr ts 105)"
  "build_reading worker_lib0 ts (entry_with s ''95'') = Inr (reading_hr ts 95)"
  by (simp_all add: build_reading_def and_then_def get_int_def get_float_def
      entry_with_fields worker_lib0_def reading_hr_def reading_at_def)

lemma predict_sample:
  "predict model0 (feature_vector (reading_hr ts 180)) = - 1"
  "predict model0 (feature_vector (reading_hr ts 105)) = - 1"
  "predict model0 (feature_vector (reading_hr ts 95)) = 1"
  "decision_function model0 v = - 1 / 10"
  by (simp_all add: model0_def feature_vector_def reading_hr_def reading_at_def)

lemma process_sample_95:
  "process_event worker_lib0 model0 (env_at now uq) (entry_with iso1000 ''95'') st =
     (None, st\<lparr>patient_states := (patient_states st)
                (''pt-1'' \<mapsto> add_reading (reading_hr 1000 95) (state_of st ''pt-1''))\<rparr>)"
proof -
  have b: "build_reading worker_lib0
             (parse_timestamp worker_lib0 (wall_clock (env_at now uq)) (entry_with iso1000 ''95''))
             (entry_with iso1000 ''95'') = Inr (reading_hr 1000 95)"
    by (simp add: parse_timestamp_sample build_reading_sample)
  have up: "store_up (env_at now uq)"
    by (simp add: env_at_def)
  show ?thesis
    unfolding process_event_parsed [OF entry_with_fields(1) b up] Let_def
    by (simp add: predict_sample)
qed

lemma process_sample_flagged:
  assumes "build_reading worker_lib0 1000 (entry_with iso1000 h) = Inr rd"
    and "predict model0 (feature_vector rd) = - 1"
  shows "process_event worker_lib0 model0 (env_at now uq) (entry_with iso1000 h) st =
     (case insert_anomaly uq
             (anomaly_row_of worker_lib0 model0 ''pt-1'' rd (add_reading rd (state_of st ''pt-1'')))
             (anomalies st) of
        None \<Rightarrow>
          (Some AnomalyUniqueViolation,
           st\<lparr>patient_states := (patient_states st)
                (''pt-1'' \<mapsto> add_reading rd (state_of st ''pt-1''))\<rparr>)
      | Some rows \<Rightarrow>
          (None,
           st\<lparr>patient_states := (patient_states st)
                (''pt-1'' \<mapsto> add_reading rd (state_of st ''pt-1'')),
              anomalies := rows\<rparr>))"
proof -
  have b: "build_reading worker_lib0
             (parse_timestamp worker_lib0 (wall_clock (env_at now uq)) (entry_with iso1000 h))
             (entry_with iso1000 h) = Inr rd"
    by (simp add: parse_timestamp_sample assms(1))
  have up: "store_up (env_at now uq)"
    by (simp add: env_at_def)
  have uq: "anomalies_unique (env_at now uq) = uq"
    by (simp add: env_at_def)
  show ?thesis
    unfolding process_event_parsed [OF entry_with_fields(1) b up] Let_def uq
    by (simp add: assms(2))
qed

lemma worker_warm_eq:
  "worker_warm =
     \<lparr>patient_states =
        [''pt-1'' \<mapsto> add_readings
           [reading_hr 1000 95, reading_hr 1000 95, reading_hr 1000 95, reading_hr 1000 95,
            reading_hr 1000 95, reading_hr 1000 95, reading_hr 1000 95]
           (new_PatientStateManager ''pt-1'')],
      anomalies = []\<rparr>"
  unfolding worker_warm_def process_sample_95
  by (simp add: state_of_def worker0_def add_readings_def)

lemma state_of_sample:
  "state_of worker0 pid = new_PatientStateManager pid"
  "state_of (restart st) pid = new_PatientStateManager pid"
  "state_of worker_warm ''pt-1'' =
     add_readings
       [reading_hr 1000 95, reading_hr 1000 95, reading_hr 1000 95, reading_hr 1000 95,
            reading_hr 1000 95, reading_hr 1000 95, reading_hr 1000 95]
       (new_PatientStateManager ''pt-1'')"
  by (simp_all add: state_of_def worker0_def restart_def worker_warm_eq)

lemma events_10m_fresh:
  "events (w_10m (add_reading (reading_hr t h) (new_PatientStateManager pid))) =
     [(t, reading_hr t h)]"
  by (simp add: add_reading_windows add_event_def prune_def new_PatientStateManager_def
      new_SlidingWindow_def reading_hr_def reading_at_def)

lemma events_10m_warm:
  "events (w_10m (add_reading (reading_hr 1000 105) (add_readings
      [reading_hr 1000 95, reading_hr 1000 95, reading_hr 1000 95, reading_hr 1000 95,
            reading_hr 1000 95, reading_hr 1000 95, reading_hr 1000 95]
      (new_PatientStateManager ''pt-1'')))) =
   [(1000, reading_hr 1000 95), (1000, reading_hr 1000 95), (1000, reading_hr 1000 95),
    (1000, reading_hr 1000 95), (1000, reading_hr 1000 95), (1000, reading_hr 1000 95),
    (1000, reading_hr 1000 95), (1000, reading_hr 1000 105)]"
  by (simp add: add_readings_def add_reading_windows add_event_def prune_def
      new_PatientStateManager_def new_SlidingWindow_def reading_hr_def reading_at_def)

lemma num_sample: "num worker_lib0 = numerics0"
  by (simp add: worker_lib0_def)

lemma anomaly_row_fresh:
  "anomaly_row_of worker_lib0 model0 ''pt-1'' (reading_hr t h)
     (add_reading (reading_hr t h) (new_PatientStateManager ''pt-1'')) =
   \<lparr>a_patient_id = ''pt-1'', a_anomaly_type = ''spike'', a_score = 1 / 10, a_timestamp = t,
    a_details = reading_hr t h\<rparr>"
  unfolding anomaly_row_of_def anomaly_type_def get_aggregates_def events_10m_fresh
    num_sample Let_def
  by (simp add: predict_sample reading_hr_def reading_at_def)

lemma anomaly_row_warm:
  "anomaly_row_of worker_lib0 model0 ''pt-1'' (reading_hr 1000 105)
     (add_reading (reading_hr 1000 105) (add_readings
        [reading_hr 1000 95, reading_hr 1000 95, reading_hr 1000 95, reading_hr 1000 95,
            reading_hr 1000 95, reading_hr 1000 95, reading_hr 1000 95]
        (new_PatientStateManager ''pt-1''))) =
   \<lparr>a_patient_id = ''pt-1'', a_anomaly_type = ''drift'', a_score = 1 / 10,
    a_timestamp = 1000, a_details = reading_hr 1000 105\<rparr>"
  unfolding anomaly_row_of_def anomaly_type_def get_aggregates_def events_10m_warm
    num_sample Let_def
  by (simp add: predict_sample reading_hr_def reading_at_def numerics0_def
      literal_0_2_def)

lemma first_run_eq:
  "process_event worker_lib0 model0 (env_at 2000 True) (entry_with iso1000 ''105'') worker_warm =
     (None, first_run)"
  "anomalies first_run =
     [\<lparr>a_patient_id = ''pt-1'', a_anomaly_type = ''drift'', a_score = 1 / 10,
       a_timestamp = 1000, a_details = reading_hr 1000 105\<rparr>]"
  unfolding first_run_def
    process_sample_flagged [OF build_reading_sample(2) predict_sample(2)]
    state_of_sample anomaly_row_warm
  by (simp_all add: insert_anomaly_def worker_warm_eq)





lemma state_of_first_run:
  "state_of first_run ''pt-1'' =
     add_reading (reading_hr 1000 105) (add_readings
       [reading_hr 1000 95, reading_hr 1000 95, reading_hr 1000 95, reading_hr 1000 95,
            reading_hr 1000 95, reading_hr 1000 95, reading_hr 1000 95]
       (new_PatientStateManager ''pt-1''))"
  unfolding first_run_def
    process_sample_flagged [OF build_reading_sample(2) predict_sample(2)]
    state_of_sample anomaly_row_warm
  by (simp add: insert_anomaly_def worker_warm_eq state_of_def)

theorem persisted_anomaly_kind_witness:
  "entry_with iso1000 ''105'' ''patient_id'' = Some ''pt-1'' \<and>
   predict model0 (feature_vector (reading_hr 1000 105)) = - 1 \<and>
   fst (process_event worker_lib0 model0 (env_at 2000 True) (entry_with iso1000 ''105'')
          worker_warm) = None \<and>
   length (events (w_10m (state_of first_run ''pt-1''))) = 8 \<and>
   py_round numerics0 (np_mean numerics0 (map (\<lambda>e. of_int (rd_hr (snd e)))
     (events (w_10m (state_of first_run ''pt-1''))))) = 385 / 4 \<and>
   map a_anomaly_type (anomalies first_run) = [''drift'']"
proof -
  let ?d = "entry_with iso1000 ''105''"
  let ?w = "events (w_10m (state_of first_run ''pt-1''))"
  have b: "build_reading worker_lib0
             (parse_timestamp worker_lib0 (wall_clock (env_at 2000 True)) ?d) ?d =
           Inr (reading_hr 1000 105)"
    by (simp add: parse_timestamp_sample build_reading_sample)
  from persisted_anomaly_kind [OF entry_with_fields(1) b predict_sample(2) first_run_eq(1)]
  obtain row where rows: "anomalies first_run = anomalies worker_warm @ [row]"
    and score: "a_score row = - decision_function model0 (feature_vector (reading_hr 1000 105))"
    and kind: "a_anomaly_type row =
      (if 6 \<le> length ?w then
         (if \<bar>int_sub_float (num worker_lib0) (rd_hr (reading_hr 1000 105))
                (py_round (num worker_lib0) (np_mean (num worker_lib0)
                   (map (\<lambda>e. of_int (rd_hr (snd e))) ?w)))\<bar> > 20
          then ''spike''
          else if \<bar>int_sub_float (num worker_lib0) (rd_spo2 (reading_hr 1000 105))
                     (py_round (num worker_lib0) (np_mean (num worker_lib0)
                        (map (\<lambda>e. of_int (rd_spo2 (snd e))) ?w)))\<bar> > 5
          then ''drop''
          else if a_score row > literal_0_2 then ''multi-signal''
          else ''drift'')
       else ''spike'')"
    by blast
  have ev: "?w =
    [(1000, reading_hr 1000 95), (1000, reading_hr 1000 95), (1000, reading_hr 1000 95),
     (1000, reading_hr 1000 95), (1000, reading_hr 1000 95), (1000, reading_hr 1000 95),
     (1000, reading_hr 1000 95), (1000, reading_hr 1000 105)]"
    unfolding state_of_first_run events_10m_warm ..
  have "a_anomaly_type row = ''drift''"
    unfolding kind ev score num_sample
    by (simp add: predict_sample reading_hr_def reading_at_def numerics0_def
        literal_0_2_def)
  then have k: "map a_anomaly_type (anomalies first_run) = [''drift'']"
    unfolding rows by (simp add: worker_warm_eq)
  have n: "fst (process_event worker_lib0 model0 (env_at 2000 True) ?d worker_warm) = None"
    unfolding first_run_eq(1) by simp
  have l: "length ?w = 8"
    unfolding ev by simp
  have avg: "py_round numerics0 (np_mean numerics0 (map (\<lambda>e. of_int (rd_hr (snd e))) ?w)) =
               385 / 4"
    unfolding ev by (simp add: numerics0_def reading_hr_def reading_at_def)
  from entry_with_fields(1) [of iso1000 "''105''"] predict_sample(2) [of 1000] n l avg k
  show ?thesis
    by simp
qed



section \<open>The consumer loop: results\<close>

lemma xack_with_pending:
  assumes "i \<notin> fst ` set p"
  shows "xack i (g\<lparr>pending := p @ pending g\<rparr>) =
           (xack i g)\<lparr>pending := p @ pending (xack i g)\<rparr>"
proof -
  have "filter (\<lambda>x. fst x \<noteq> i) p = p"
    using assms by (induction p) auto
  then show ?thesis
    by (simp add: xack_def)
qed

lemma handle_messages_add_pending:
  assumes "\<forall>msg\<in>set msgs. fst msg \<notin> fst ` set p"
  shows "handle_messages ps m envs msgs (add_pending p s) =
           add_pending p (handle_messages ps m envs msgs s)"
  using assms
proof (induction msgs arbitrary: s)
  case Nil
  show ?case by simp
next
  case (Cons msg rest)
  obtain i d where msg: "msg = (i, d)"
    by (cases msg)
  obtain r st where run: "process_event ps m (envs i) d (mem s) = (r, st)"
    by (cases "process_event ps m (envs i) d (mem s)")
  have i: "i \<notin> fst ` set p"
    using Cons.prems msg by simp
  have rest: "\<forall>msg\<in>set rest. fst msg \<notin> fst ` set p"
    using Cons.prems by simp
  have mem: "mem (add_pending p s) = mem s" "grp (add_pending p s) = (grp s)\<lparr>pending := p @ pending (grp s)\<rparr>"
    by (simp_all add: add_pending_def)
  show ?case
  proof (cases r)
    case (Some e)
    then show ?thesis
      by (simp add: msg mem(1) run) (simp add: add_pending_def)
  next
    case None
    have step: "(add_pending p s)\<lparr>mem := st, grp := xack i (grp (add_pending p s))\<rparr> =
                  add_pending p (s\<lparr>mem := st, grp := xack i (grp s)\<rparr>)"
      unfolding mem(2) xack_with_pending [OF i] by (simp add: add_pending_def)
    show ?thesis
      using None Cons.IH [OF rest, of "s\<lparr>mem := st, grp := xack i (grp s)\<rparr>"]
      by (simp add: msg mem(1) run step)
  qed
qed

lemma handle_messages_last_delivered:
  "last_delivered (grp (handle_messages ps m envs msgs s)) = last_delivered (grp s)"
proof (induction msgs arbitrary: s)
  case Nil
  show ?case by simp
next
  case (Cons msg rest)
  obtain i d where msg: "msg = (i, d)"
    by (cases msg)
  obtain r st where run: "process_event ps m (envs i) d (mem s) = (r, st)"
    by (cases "process_event ps m (envs i) d (mem s)")
  show ?case
    using Cons.IH [of "s\<lparr>mem := st, grp := xack i (grp s)\<rparr>"]
    by (cases r) (simp_all add: msg run xack_def)
qed

lemma xreadgroup_fst:
  "fst (xreadgroup consumer cnt g) =
     take cnt (filter (\<lambda>e. last_delivered g < fst e) (entries g))"
  by (simp add: xreadgroup_def Let_def)

lemma xreadgroup_snd:
  "snd (xreadgroup consumer cnt g) =
     g\<lparr>last_delivered :=
         (if fst (xreadgroup consumer cnt g) = [] then last_delivered g
          else fst (last (fst (xreadgroup consumer cnt g)))),
       pending := pending g @ map (\<lambda>e. (fst e, consumer)) (fst (xreadgroup consumer cnt g))\<rparr>"
  by (simp add: xreadgroup_def Let_def)

lemma xreadgroup_ids:
  "\<forall>msg\<in>set (fst (xreadgroup consumer cnt g)). last_delivered g < fst msg"
proof
  fix msg
  assume "msg \<in> set (fst (xreadgroup consumer cnt g))"
  then have "msg \<in> set (filter (\<lambda>e. last_delivered g < fst e) (entries g))"
    unfolding xreadgroup_fst by (rule in_set_takeD)
  then show "last_delivered g < fst msg"
    by simp
qed

lemma xreadgroup_last_delivered:
  "last_delivered g \<le> last_delivered (snd (xreadgroup consumer cnt g))"
proof (cases "fst (xreadgroup consumer cnt g) = []")
  case True
  show ?thesis
    by (subst xreadgroup_snd) (simp add: True)
next
  case False
  then have "last (fst (xreadgroup consumer cnt g)) \<in> set (fst (xreadgroup consumer cnt g))"
    by (rule last_in_set)
  with xreadgroup_ids have "last_delivered g < fst (last (fst (xreadgroup consumer cnt g)))"
    by blast
  then show ?thesis
    by (subst xreadgroup_snd) (simp add: False)
qed

lemma xreadgroup_with_pending:
  "xreadgroup consumer cnt (g\<lparr>pending := p @ pending g\<rparr>) =
     (fst (xreadgroup consumer cnt g),
      (snd (xreadgroup consumer cnt g))
        \<lparr>pending := p @ pending (snd (xreadgroup consumer cnt g))\<rparr>)"
  by (simp add: xreadgroup_def Let_def)

lemma loop_pass_add_pending:
  assumes "\<forall>x\<in>set p. fst x \<le> last_delivered (grp s)"
  shows "loop_pass ps m envs consumer readable (add_pending p s) =
           add_pending p (loop_pass ps m envs consumer readable s)"
proof (cases readable)
  case False
  then show ?thesis
    by (simp add: loop_pass_def)
next
  case True
  let ?msgs = "fst (xreadgroup consumer 10 (grp s))"
  let ?g = "snd (xreadgroup consumer 10 (grp s))"
  have fresh: "\<forall>msg\<in>set ?msgs. fst msg \<notin> fst ` set p"
    using assms xreadgroup_ids [of consumer 10 "grp s"] by fastforce
  have grp: "grp (add_pending p s) = (grp s)\<lparr>pending := p @ pending (grp s)\<rparr>"
    by (simp add: add_pending_def)
  have st: "(add_pending p s)\<lparr>grp := ?g\<lparr>pending := p @ pending ?g\<rparr>\<rparr> =
              add_pending p (s\<lparr>grp := ?g\<rparr>)"
    by (simp add: add_pending_def)
  have l: "loop_pass ps m envs consumer readable (add_pending p s) =
             handle_messages ps m envs ?msgs (add_pending p (s\<lparr>grp := ?g\<rparr>))"
    unfolding loop_pass_def grp xreadgroup_with_pending using True by (simp add: st)
  have r: "loop_pass ps m envs consumer readable s =
             handle_messages ps m envs ?msgs (s\<lparr>grp := ?g\<rparr>)"
    unfolding loop_pass_def using True by (simp add: case_prod_beta)
  show ?thesis
    unfolding l r by (rule handle_messages_add_pending [OF fresh])
qed

lemma loop_pass_last_delivered:
  "last_delivered (grp s) \<le> last_delivered (grp (loop_pass ps m envs consumer readable s))"
  using xreadgroup_last_delivered [of "grp s" consumer 10]
  by (simp add: loop_pass_def case_prod_beta handle_messages_last_delivered)

lemma publish_pending:
  "publish d (g\<lparr>pending := q\<rparr>) = (publish d g)\<lparr>pending := q\<rparr>"
  "pending (publish d g) = pending g"
  by (simp_all add: publish_def)

lemma publish_all_pending:
  "publish_all ds (g\<lparr>pending := q\<rparr>) = (publish_all ds g)\<lparr>pending := q\<rparr>"
  "pending (publish_all ds g) = pending g"
  unfolding publish_all_def
  by (induction ds arbitrary: g) (simp_all add: publish_pending)

lemma publish_all_with_pending:
  "publish_all ds (g\<lparr>pending := p @ pending g\<rparr>) =
     (publish_all ds g)\<lparr>pending := p @ pending (publish_all ds g)\<rparr>"
  by (simp add: publish_all_pending)

lemma publish_all_last_delivered:
  "last_delivered (publish_all ds g) = last_delivered g"
  unfolding publish_all_def
  by (induction ds arbitrary: g) (simp_all add: publish_def)

lemma worker_loop_add_pending:
  assumes "\<forall>x\<in>set p. fst x \<le> last_delivered (grp s)"
  shows "worker_loop ps m envs consumer sched (add_pending p s) =
           add_pending p (worker_loop ps m envs consumer sched s)"
  using assms
proof (induction sched arbitrary: s)
  case Nil
  show ?case by simp
next
  case (Cons pass sched)
  obtain arrived readable where pass: "pass = (arrived, readable)"
    by (cases pass)
  let ?s1 = "s\<lparr>grp := publish_all arrived (grp s)\<rparr>"
  let ?s2 = "loop_pass ps m envs consumer readable ?s1"
  have pub: "(add_pending p s)\<lparr>grp := publish_all arrived (grp (add_pending p s))\<rparr> =
               add_pending p ?s1"
    by (simp add: add_pending_def publish_all_with_pending)
  have b1: "\<forall>x\<in>set p. fst x \<le> last_delivered (grp ?s1)"
    using Cons.prems by (simp add: publish_all_last_delivered)
  have b2: "\<forall>x\<in>set p. fst x \<le> last_delivered (grp ?s2)"
    using b1 loop_pass_last_delivered [of ?s1 ps m envs consumer readable]
    by (meson order_trans)
  show ?case
    unfolding pass worker_loop.simps pub loop_pass_add_pending [OF b1]
    by (rule Cons.IH [OF b2])
qed

text \<open>
  C7, as stated, fails. The only entry of the stream was delivered to \<open>worker-7\<close> and
  never acknowledged. The worker starts again under the same consumer name and makes two
  passes of its loop: its memory and the anomalies table are untouched and the entry is
  still pending, although processing the entry stores an anomaly row.
\<close>

theorem pending_entry_counterexample:
  "entries stream_crashed = [(1, entry_with iso1000 ''180'')] \<and>
   pending stream_crashed = [(1, ''worker-7'')] \<and>
   mem (main worker_lib0 (Some model0) envs0 ''worker-7'' [([], True), ([], True)] []
          stream_crashed) = worker0 \<and>
   pending (grp (main worker_lib0 (Some model0) envs0 ''worker-7'' [([], True), ([], True)] []
          stream_crashed)) = [(1, ''worker-7'')] \<and>
   fst (process_event worker_lib0 model0 (envs0 1) (entry_with iso1000 ''180'') worker0) = None \<and>
   anomalies (snd (process_event worker_lib0 model0 (envs0 1) (entry_with iso1000 ''180'')
     worker0)) \<noteq> []"
proof -
  have run: "main worker_lib0 (Some model0) envs0 ''worker-7'' [([], True), ([], True)] []
               stream_crashed = \<lparr>mem = worker0, grp = stream_crashed\<rparr>"
    by (simp add: main_def xgroup_create_def stream_crashed_def loop_pass_def
        xreadgroup_def publish_all_def Let_def worker0_def)
  have ev: "process_event worker_lib0 model0 (envs0 1) (entry_with iso1000 ''180'') worker0 =
      (None, worker0\<lparr>patient_states := (patient_states worker0)
          (''pt-1'' \<mapsto> add_reading (reading_hr 1000 180) (new_PatientStateManager ''pt-1'')),
        anomalies :=
          [\<lparr>a_patient_id = ''pt-1'', a_anomaly_type = ''spike'', a_score = 1 / 10,
            a_timestamp = 1000, a_details = reading_hr 1000 180\<rparr>]\<rparr>)"
    unfolding envs0_def process_sample_flagged [OF build_reading_sample(1) predict_sample(1)]
      state_of_sample anomaly_row_fresh
    by (simp add: insert_anomaly_def worker0_def)
  show ?thesis
    unfolding run ev by (simp add: stream_crashed_def)
qed

text \<open>
  C7, amended. On startup the worker creates the consumer group if it is absent and then
  reads only entries never delivered to the group. With the group in place and every
  pending entry already delivered, the entries pending at startup are neither enumerated
  nor re-processed: under every schedule of arrivals and reads the worker's memory and
  the anomalies table are what they are when the pending list is empty at startup, and
  the entries pending at startup are all still pending.
\<close>

theorem pending_entries_not_reprocessed:
  assumes "group_exists g"
    and "\<forall>x\<in>set (pending g). fst x \<le> last_delivered g"
  shows "mem (main ps (Some m) envs consumer sched rows g) =
           mem (main ps (Some m) envs consumer sched rows (g\<lparr>pending := []\<rparr>)) \<and>
         pending (grp (main ps (Some m) envs consumer sched rows g)) =
           pending g @
           pending (grp (main ps (Some m) envs consumer sched rows (g\<lparr>pending := []\<rparr>))) \<and>
         entries (grp (main ps (Some m) envs consumer sched rows g)) =
           entries (grp (main ps (Some m) envs consumer sched rows (g\<lparr>pending := []\<rparr>))) \<and>
         last_delivered (grp (main ps (Some m) envs consumer sched rows g)) =
           last_delivered (grp (main ps (Some m) envs consumer sched rows (g\<lparr>pending := []\<rparr>)))"
proof -
  let ?s0 = "\<lparr>mem = \<lparr>patient_states = Map.empty, anomalies = rows\<rparr>,
              grp = g\<lparr>pending := []\<rparr>\<rparr>"
  have init: "\<lparr>mem = \<lparr>patient_states = Map.empty, anomalies = rows\<rparr>, grp = g\<rparr> =
                add_pending (pending g) ?s0"
    by (simp add: add_pending_def)
  have bound: "\<forall>x\<in>set (pending g). fst x \<le> last_delivered (grp ?s0)"
    using assms(2) by simp
  have l: "main ps (Some m) envs consumer sched rows g =
             add_pending (pending g) (worker_loop ps m envs consumer sched ?s0)"
    using assms(1) worker_loop_add_pending [OF bound, of ps m envs consumer sched]
    by (simp add: main_def xgroup_create_def init)
  have r: "main ps (Some m) envs consumer sched rows (g\<lparr>pending := []\<rparr>) =
             worker_loop ps m envs consumer sched ?s0"
    using assms(1) by (simp add: main_def xgroup_create_def)
  show ?thesis
    unfolding l r by (simp add: add_pending_def)
qed

theorem pending_entries_not_reprocessed_witness:
  "group_exists stream_crashed \<and>
   list_all (\<lambda>x. fst x \<le> last_delivered stream_crashed) (pending stream_crashed) \<and>
   mem (main worker_lib0 (Some model0) envs0 ''worker-7''
          [([], True), ([entry_with iso1000 ''105''], True)] [] stream_crashed) =
     mem (main worker_lib0 (Some model0) envs0 ''worker-7''
          [([], True), ([entry_with iso1000 ''105''], True)] []
          (stream_crashed\<lparr>pending := []\<rparr>)) \<and>
   pending (grp (main worker_lib0 (Some model0) envs0 ''worker-7''
          [([], True), ([entry_with iso1000 ''105''], True)] [] stream_crashed)) =
     [(1, ''worker-7'')] @
     pending (grp (main worker_lib0 (Some model0) envs0 ''worker-7''
          [([], True), ([entry_with iso1000 ''105''], True)] []
          (stream_crashed\<lparr>pending := []\<rparr>)))"
proof -
  have h1: "group_exists stream_crashed"
    by (simp add: stream_crashed_def)
  have h2: "\<forall>x\<in>set (pending stream_crashed). fst x \<le> last_delivered stream_crashed"
    by (simp add: stream_crashed_def)
  have p: "pending stream_crashed = [(1, ''worker-7'')]"
    by (simp add: stream_crashed_def)
  note t = pending_entries_not_reprocessed [OF h1 h2, of worker_lib0 model0 envs0
      "''worker-7''" "[([], True), ([entry_with iso1000 ''105''], True)]" "[]",
      unfolded p]
  have h2': "list_all (\<lambda>x. fst x \<le> last_delivered stream_crashed) (pending stream_crashed)"
    using h2 by (simp add: list_all_iff)
  from h1 h2' t show ?thesis
    by blast
qed

end
